theory Spec2Isabelle
  imports Main "HOL-Library.Sublist"
begin

section \<open>Values, dictionaries and strings\<close>

text \<open>
  The extractor of \<^verbatim>\<open>src/yt_dlp/extractor/soundcloud.py\<close> works on decoded JSON.
  A Python \<^verbatim>\<open>None\<close> is \<open>JNull\<close> and \<^verbatim>\<open>False\<close> is \<open>JBool False\<close>: the
  code cannot tell a decoded \<^verbatim>\<open>null\<close> from a \<^verbatim>\<open>None\<close> it produced itself.
  Strings are lists of 8-bit characters (code points below 256); floats do not occur.
  A dictionary is an association list with distinct keys, in insertion order.
\<close>

datatype json =
    JNull
  | JBool bool
  | JInt int
  | JStr string
  | JList "json list"
  | JObj "(string \<times> json) list"

type_synonym dict = "(string \<times> json) list"

text \<open>Python truthiness (\<^verbatim>\<open>if v:\<close>, \<^verbatim>\<open>not v\<close>, \<^verbatim>\<open>a or b\<close>).\<close>

fun truthy :: "json \<Rightarrow> bool" where
  "truthy JNull = False"
| "truthy (JBool b) = b"
| "truthy (JInt i) = (i \<noteq> 0)"
| "truthy (JStr s) = (s \<noteq> [])"
| "truthy (JList xs) = (xs \<noteq> [])"
| "truthy (JObj kvs) = (kvs \<noteq> [])"

text \<open>Truthiness of an optional string (\<^verbatim>\<open>None\<close> and \<^verbatim>\<open>''\<close> are falsy).\<close>

fun truthy_str :: "string option \<Rightarrow> bool" where
  "truthy_str None = False"
| "truthy_str (Some s) = (s \<noteq> [])"

text \<open>\<^verbatim>\<open>d[k] = v\<close>: replaces the value in place, or appends a new key.\<close>

fun dict_set :: "string \<Rightarrow> json \<Rightarrow> dict \<Rightarrow> dict" where
  "dict_set k v [] = [(k, v)]"
| "dict_set k v ((k', v') # d) = (if k' = k then (k, v) # d else (k', v') # dict_set k v d)"

text \<open>\<^verbatim>\<open>d.pop(k, None)\<close>, for the dictionary that is left.\<close>

fun dict_pop :: "string \<Rightarrow> dict \<Rightarrow> dict" where
  "dict_pop k [] = []"
| "dict_pop k ((k', v') # d) = (if k' = k then d else (k', v') # dict_pop k d)"

text \<open>\<^verbatim>\<open>d.get(k)\<close> on a value known to be a dictionary; \<open>None\<close> is Python's \<^verbatim>\<open>None\<close>
  (a missing key and a \<^verbatim>\<open>null\<close> are the same to every caller below).\<close>

fun obj_get :: "json \<Rightarrow> string \<Rightarrow> json" where
  "obj_get (JObj kvs) k = (case map_of kvs k of Some v \<Rightarrow> v | None \<Rightarrow> JNull)"
| "obj_get _ k = JNull"

text \<open>\<^verbatim>\<open>sub in s\<close> on strings.\<close>

definition contains :: "string \<Rightarrow> string \<Rightarrow> bool" where
  "contains sub s = sublist sub s"

text \<open>\<^verbatim>\<open>delim.join(parts)\<close>.\<close>

fun join :: "string \<Rightarrow> string list \<Rightarrow> string" where
  "join delim [] = []"
| "join delim [x] = x"
| "join delim (x # y # ys) = x @ delim @ join delim (y # ys)"

text \<open>\<^verbatim>\<open>str(n)\<close> and \<^verbatim>\<open>int(s)\<close> for decimal numerals.\<close>

definition digit_char :: "nat \<Rightarrow> char" where
  "digit_char d = ''0123456789'' ! d"

fun str_of_nat :: "nat \<Rightarrow> string" where
  "str_of_nat n = (if n < 10 then [digit_char n] else str_of_nat (n div 10) @ [digit_char (n mod 10)])"

definition str_of_int :: "int \<Rightarrow> string" where
  "str_of_int i = (if i < 0 then CHR ''-'' # str_of_nat (nat (- i)) else str_of_nat (nat i))"

definition is_digit :: "char \<Rightarrow> bool" where
  "is_digit c = (c \<in> set ''0123456789'')"

definition digit_val :: "char \<Rightarrow> int" where
  "digit_val c = int (length (takeWhile (\<lambda>d. d \<noteq> c) ''0123456789''))"

definition int_of_digits :: "string \<Rightarrow> int" where
  "int_of_digits s = foldl (\<lambda>acc c. 10 * acc + digit_val c) 0 s"

section \<open>External helpers\<close>

text \<open>
  The helpers of \<^verbatim>\<open>yt_dlp.utils\<close>, the transport and the configuration are not part of
  the sources under study. They are parameters of the model, collected in one record;
  every theorem holds for all of them.
  \<^item> \<open>mimetype2ext\<close>, \<open>KNOWN_EXTENSIONS\<close>, \<open>update_url_query\<close>: the helpers of these
    names; \<open>url_or_none_str\<close> is \<^verbatim>\<open>url_or_none\<close> on a string; \<open>py_repr\<close> is \<^verbatim>\<open>repr\<close>;
    \<open>suitable\<close> is \<^verbatim>\<open>SoundcloudIE.suitable\<close>.
  \<^item> \<open>formats_arg\<close>: the configured \<^verbatim>\<open>formats\<close> list, if any; \<open>max_attempts\<close>: the bound
    of the RetryManager.
  \<^item> \<open>json_reply\<close>, \<open>page_reply\<close>, \<open>head_reply\<close>: what the transport answers to a request,
    given the requests issued before it (a server may answer the same request differently
    the second time). A request fails with an error message and a cause: a call made with
    \<^verbatim>\<open>fatal=True\<close> raises them as an \<^verbatim>\<open>ExtractorError\<close>, a call made with
    \<^verbatim>\<open>fatal=False\<close> reports the message as a warning and returns \<^verbatim>\<open>False\<close>. A handle is seen
    through \<^verbatim>\<open>urlh.url\<close>, \<^verbatim>\<open>urlhandle_detect_ext(urlh)\<close> and
    \<^verbatim>\<open>int_or_none(urlh.headers.get('Content-Length'))\<close>.
\<close>

datatype cause = HTTPError nat | TransportError

datatype request = GetJson json dict | GetPage string | Head json

record urlh =
  handle_url :: string
  handle_ext :: "string option"
  handle_length :: "int option"

record env =
  url_or_none_str :: "string \<Rightarrow> string option"
  mimetype2ext :: "string option \<Rightarrow> string option"
  KNOWN_EXTENSIONS :: "string list"
  update_url_query :: "string \<Rightarrow> dict \<Rightarrow> string"
  py_repr :: "json \<Rightarrow> string"
  suitable :: "string \<Rightarrow> bool"
  formats_arg :: "string list option"
  max_attempts :: nat
  json_reply :: "request list \<Rightarrow> json \<Rightarrow> dict \<Rightarrow> (string \<times> cause option) + json"
  page_reply :: "request list \<Rightarrow> string \<Rightarrow> (string \<times> cause option) + string"
  head_reply :: "request list \<Rightarrow> json \<Rightarrow> (string \<times> cause option) + urlh"

text \<open>Modelled from the spec: \<^verbatim>\<open>url_or_none\<close> is missing from the sources; a value that is
  not a string is no URL.\<close>

definition url_or_none :: "env \<Rightarrow> json \<Rightarrow> string option" where
  "url_or_none h v = (case v of JStr s \<Rightarrow> url_or_none_str h s | _ \<Rightarrow> None)"

text \<open>\<^verbatim>\<open>str(v)\<close> (\<^verbatim>\<open>compat_str\<close>): a string is itself, an integer its decimal numeral;
  for the other values \<^verbatim>\<open>str\<close> is \<^verbatim>\<open>repr\<close>, a parameter.\<close>

definition compat_str :: "env \<Rightarrow> json \<Rightarrow> string" where
  "compat_str h v = (case v of JStr s \<Rightarrow> s | JInt i \<Rightarrow> str_of_int i | _ \<Rightarrow> py_repr h v)"

text \<open>Modelled from the spec: \<^verbatim>\<open>str_or_none\<close> is missing from the sources; "tolerant
  coercion": \<^verbatim>\<open>None\<close> stays \<^verbatim>\<open>None\<close>, anything else is \<^verbatim>\<open>str(v)\<close>.\<close>

definition str_or_none :: "env \<Rightarrow> json \<Rightarrow> string option" where
  "str_or_none h v = (case v of JNull \<Rightarrow> None | _ \<Rightarrow> Some (compat_str h v))"

text \<open>Modelled from the spec: \<^verbatim>\<open>join_nonempty\<close> is missing from the sources; the identity
  key is \<^verbatim>\<open>protocol_extension\<close>, the join of the parts that are present and not empty.\<close>

definition join_nonempty :: "string \<Rightarrow> string option list \<Rightarrow> string" where
  "join_nonempty delim vs = join delim (map the (filter truthy_str vs))"

text \<open>Modelled from the spec: \<^verbatim>\<open>traverse_obj(v, (k1, k2, {str}))\<close> is missing from the
  sources; it follows the keys through nested dictionaries and keeps a string result,
  any other outcome being \<^verbatim>\<open>None\<close>.\<close>

definition as_str :: "json \<Rightarrow> string option" where
  "as_str v = (case v of JStr s \<Rightarrow> Some s | _ \<Rightarrow> None)"

section \<open>FormatSelector: \<^verbatim>\<open>_is_requested\<close>\<close>

definition DEFAULT_FORMATS :: "string list" where
  "DEFAULT_FORMATS = [''http_aac'', ''hls_aac'', ''http_opus'', ''hls_opus'', ''http_mp3'', ''hls_mp3'']"

text \<open>
  The compiled regular expression is an alternation; each alternative is a sequence of
  literal characters (\<^verbatim>\<open>re.escape\<close>) and of \<^verbatim>\<open>.*\<close> (what
  \<^verbatim>\<open>.replace(r'\*', r'.*')\<close> puts for each star of the pattern).
\<close>

datatype tok = Lit char | AnyStar

definition re_escape :: "string \<Rightarrow> tok list" where
  "re_escape s = map Lit s"

definition compile_pattern :: "string \<Rightarrow> tok list" where
  "compile_pattern p = map (\<lambda>c. if c = CHR ''*'' then AnyStar else Lit c) p"

text \<open>\<^verbatim>\<open>.\<close> matches every character but the newline.\<close>

fun tok_match :: "tok list \<Rightarrow> string \<Rightarrow> bool" where
  "tok_match [] s = (s = [])"
| "tok_match (Lit c # ts) [] = False"
| "tok_match (Lit c # ts) (d # ds) = (c = d \<and> tok_match ts ds)"
| "tok_match (AnyStar # ts) [] = tok_match ts []"
| "tok_match (AnyStar # ts) (d # ds) =
     (tok_match ts (d # ds) \<or> (d \<noteq> CHR 0x0A \<and> tok_match (AnyStar # ts) ds))"

text \<open>\<^verbatim>\<open>x.lower()\<close> on 8-bit characters: the letters \<^verbatim>\<open>A\<close> to \<^verbatim>\<open>Z\<close> and the capital letters
  of the codes 192 to 222 (but 215, the multiplication sign) move up by 32.\<close>

definition lower_char :: "char \<Rightarrow> char" where
  "lower_char c =
     (let n = (of_char c :: nat)
      in if (65 \<le> n \<and> n \<le> 90) \<or> (192 \<le> n \<and> n \<le> 222 \<and> n \<noteq> 215) then char_of (n + 32) else c)"

definition py_lower :: "string \<Rightarrow> string" where
  "py_lower s = map lower_char s"

text \<open>Modelled from the spec: \<^verbatim>\<open>InfoExtractor._configuration_arg\<close> is missing from the
  sources; the selector is built "from a configuration list of patterns": the list
  configured for the key, its values in lower case (the call leaves \<^verbatim>\<open>casesense\<close> at
  its default), or the default passed by the caller when the key is not configured. An
  empty list is a configured list and is returned as it is.\<close>

definition configuration_arg :: "string list option \<Rightarrow> string list \<Rightarrow> string list" where
  "configuration_arg cfg dflt = (case cfg of None \<Rightarrow> dflt | Some ps \<Rightarrow> map py_lower ps)"

text \<open>
  The alternatives of the compiled expression, one or more for each pattern (the
  \<^verbatim>\<open>set\<close> only drops duplicates). Without any pattern \<^verbatim>\<open>'|'.join\<close> gives the empty
  expression, which is one alternative, the empty one.
\<close>

definition is_requested_alternatives :: "string list option \<Rightarrow> tok list list" where
  "is_requested_alternatives cfg =
     (case configuration_arg cfg [''default''] of
        [] \<Rightarrow> [[]]
      | pattern # patterns \<Rightarrow>
          concat (map (\<lambda>pattern. if pattern \<noteq> ''default'' then [compile_pattern pattern]
                                  else map re_escape DEFAULT_FORMATS)
                      (pattern # patterns)))"

text \<open>\<^verbatim>\<open>re.compile(...).fullmatch\<close>, as a truth value.\<close>

definition is_requested :: "string list option \<Rightarrow> string \<Rightarrow> bool" where
  "is_requested cfg identifier = list_ex (\<lambda>alt. tok_match alt identifier) (is_requested_alternatives cfg)"

section \<open>FormatClassifier: the head of the transcoding loop\<close>

text \<open>Lines 286 to 292: the protocol of a transcoding \<open>t\<close> whose \<^verbatim>\<open>t['url']\<close> is
  \<open>format_url\<close>.\<close>

definition transcoding_protocol :: "json \<Rightarrow> string \<Rightarrow> string option" where
  "transcoding_protocol t format_url =
     (let protocol = as_str (obj_get (obj_get t ''format'') ''protocol'');
          protocol = (if protocol = Some ''progressive'' then Some ''http'' else protocol);
          protocol = (if protocol \<noteq> Some ''hls'' \<and> contains ''/hls'' format_url
                      then Some ''hls'' else protocol);
          protocol = (if protocol = Some ''encrypted-hls'' \<or> contains ''/encrypted-hls'' format_url
                      then Some ''hls-aes'' else protocol)
      in protocol)"

text \<open>Lines 294 to 298. \<^verbatim>\<open>preset.split('_')[0]\<close> is the text before the first underscore.\<close>

definition transcoding_preset :: "env \<Rightarrow> json \<Rightarrow> string option" where
  "transcoding_preset h t = str_or_none h (obj_get t ''preset'')"

definition leading_token :: "string \<Rightarrow> string" where
  "leading_token preset = takeWhile (\<lambda>c. c \<noteq> CHR ''_'') preset"

definition transcoding_ext :: "env \<Rightarrow> json \<Rightarrow> string option" where
  "transcoding_ext h t =
     (let ext = None;
          preset = transcoding_preset h t;
          ext = (if truthy_str preset then Some (leading_token (the preset)) else ext)
      in if (case ext of None \<Rightarrow> True | Some e \<Rightarrow> e \<notin> set (KNOWN_EXTENSIONS h))
         then mimetype2ext h (as_str (obj_get (obj_get t ''format'') ''mime_type''))
         else ext)"

definition transcoding_identifier :: "env \<Rightarrow> json \<Rightarrow> string \<Rightarrow> string" where
  "transcoding_identifier h t format_url =
     join_nonempty ''_'' [transcoding_protocol t format_url, transcoding_ext h t]"

section \<open>Errors and the extractor's state\<close>

text \<open>
  The exceptions the code raises or lets through. \<open>ExtractorError\<close> carries its message
  and its cause; \<open>GeoRestrictedError\<close> is the error of \<^verbatim>\<open>raise_geo_restricted\<close>.
  A function that raises nothing but \<^verbatim>\<open>ExtractorError\<close> returns the pair of message and
  cause as its error.
\<close>

type_synonym extractor_error = "string \<times> cause option"

datatype exn =
    ExtractorError string "cause option"
  | GeoRestrictedError
  | KeyError string
  | TypeError
  | AttributeError

text \<open>
  The mutable state: \<^verbatim>\<open>self._CLIENT_ID\<close>, the cache entry
  \<^verbatim>\<open>('soundcloud', 'client_id')\<close> (\<open>None\<close> once \<^verbatim>\<open>None\<close> is stored), the requests issued so
  far, oldest first, and the warnings reported (those of the RetryManager and of the
  cache apart).
\<close>

record state =
  CLIENT_ID :: string
  cache :: "string option"
  requests :: "request list"
  warnings :: "string list"

definition issue :: "request \<Rightarrow> state \<Rightarrow> state" where
  "issue r s = s\<lparr>requests := requests s @ [r]\<rparr>"

definition report_warning :: "string \<Rightarrow> state \<Rightarrow> state" where
  "report_warning msg s = s\<lparr>warnings := warnings s @ [msg]\<rparr>"

text \<open>\<^verbatim>\<open>report_warning(msg, only_once=True)\<close>.\<close>

definition report_warning_once :: "string \<Rightarrow> state \<Rightarrow> state" where
  "report_warning_once msg s = (if msg \<in> set (warnings s) then s else report_warning msg s)"

section \<open>CredentialStore\<close>

definition store_client_id :: "string option \<Rightarrow> state \<Rightarrow> state" where
  "store_client_id client_id s = s\<lparr>cache := client_id\<rparr>"

text \<open>\<^verbatim>\<open>\s\<close> and \<^verbatim>\<open>[0-9a-zA-Z]\<close> on 8-bit characters.\<close>

definition is_space :: "char \<Rightarrow> bool" where
  "is_space c = (c \<in> set [CHR 0x09, CHR 0x0A, CHR 0x0B, CHR 0x0C, CHR 0x0D, CHR 0x1C, CHR 0x1D,
                            CHR 0x1E, CHR 0x1F, CHR 0x20, CHR 0x85, CHR 0xA0])"

definition is_alnum :: "char \<Rightarrow> bool" where
  "is_alnum c = (c \<in> set ''0123456789abcdefghijklmnopqrstuvwxyzABCDEFGHIJKLMNOPQRSTUVWXYZ'')"

definition dquote :: char where
  "dquote = CHR 0x22"

text \<open>A match of \<^verbatim>\<open>client_id\s*:\s*"([0-9a-zA-Z]{32})"\<close> at the head of \<open>s\<close>: its group.\<close>

definition match_client_id_at :: "string \<Rightarrow> string option" where
  "match_client_id_at s =
     (if prefix ''client_id'' s then
        (case dropWhile is_space (drop 9 s) of
           [] \<Rightarrow> None
         | c # r1 \<Rightarrow>
             if c = CHR '':'' then
               (case dropWhile is_space r1 of
                  [] \<Rightarrow> None
                | q # r2 \<Rightarrow>
                    if q = dquote \<and> length (take 32 r2) = 32 \<and> list_all is_alnum (take 32 r2)
                       \<and> prefix [dquote] (drop 32 r2)
                    then Some (take 32 r2) else None)
             else None)
      else None)"

text \<open>\<^verbatim>\<open>_search_regex(pattern, script, 'client id', default=None)\<close>: the group of the
  leftmost match.\<close>

fun search_client_id :: "string \<Rightarrow> string option" where
  "search_client_id [] = None"
| "search_client_id (c # cs) =
     (case match_client_id_at (c # cs) of
        Some client_id \<Rightarrow> Some client_id
      | None \<Rightarrow> search_client_id cs)"

text \<open>
  \<^verbatim>\<open>re.findall(r'<script[^>]+src="([^"]+)"', webpage)\<close>. After \<^verbatim>\<open><script\<close> the greedy
  \<^verbatim>\<open>[^>]+\<close> takes \<open>k\<close> characters, the longest choice first; \<open>rest\<close> is the text after
  \<^verbatim>\<open><script\<close> and \<open>k\<close> is at most the length of its run without \<^verbatim>\<open>>\<close>. The result is the
  group and the length of the whole match.
\<close>

fun script_src_backtrack :: "nat \<Rightarrow> string \<Rightarrow> (string \<times> nat) option" where
  "script_src_backtrack 0 rest = None"
| "script_src_backtrack (Suc k) rest =
     (let after = drop (Suc k) rest;
          v = takeWhile (\<lambda>c. c \<noteq> dquote) (drop 5 after)
      in if prefix (''src='' @ [dquote]) after \<and> v \<noteq> []
            \<and> prefix [dquote] (drop (length v) (drop 5 after))
         then Some (v, 7 + Suc k + 5 + length v + 1)
         else script_src_backtrack k rest)"

definition match_script_src_at :: "string \<Rightarrow> (string \<times> nat) option" where
  "match_script_src_at s =
     (if prefix ''<script'' s
      then script_src_backtrack (length (takeWhile (\<lambda>c. c \<noteq> CHR ''>'') (drop 7 s))) (drop 7 s)
      else None)"

text \<open>The scan resumes after a match: \<open>skip\<close> counts the characters of the last match that
  are still ahead.\<close>

fun findall_script_src :: "nat \<Rightarrow> string \<Rightarrow> string list" where
  "findall_script_src skip [] = []"
| "findall_script_src (Suc skip) (c # cs) = findall_script_src skip cs"
| "findall_script_src 0 (c # cs) =
     (case match_script_src_at (c # cs) of
        Some (v, len) \<Rightarrow> v # findall_script_src (len - 1) cs
      | None \<Rightarrow> findall_script_src 0 cs)"

text \<open>
  The loop of \<^verbatim>\<open>_update_client_id\<close> over the script sources. A script that cannot be
  downloaded (\<^verbatim>\<open>fatal=False\<close>) is reported as a warning, is \<^verbatim>\<open>False\<close> and is skipped.
\<close>

fun scan_scripts :: "env \<Rightarrow> string list \<Rightarrow> state \<Rightarrow> (extractor_error + unit) \<times> state" where
  "scan_scripts e [] s = (Inl (''Unable to extract client id'', None), s)"
| "scan_scripts e (src # srcs) s =
     (case page_reply e (requests s) src of
        Inl (msg, c) \<Rightarrow> scan_scripts e srcs (report_warning msg (issue (GetPage src) s))
      | Inr script \<Rightarrow>
          if script \<noteq> [] then
            (case search_client_id script of
               Some client_id \<Rightarrow>
                 if client_id \<noteq> [] then
                   (Inr (), store_client_id (Some client_id)
                              ((issue (GetPage src) s)\<lparr>CLIENT_ID := client_id\<rparr>))
                 else scan_scripts e srcs (issue (GetPage src) s)
             | None \<Rightarrow> scan_scripts e srcs (issue (GetPage src) s))
          else scan_scripts e srcs (issue (GetPage src) s))"

definition update_client_id :: "env \<Rightarrow> state \<Rightarrow> (extractor_error + unit) \<times> state" where
  "update_client_id e s =
     (case page_reply e (requests s) ''https://soundcloud.com/'' of
        Inl err \<Rightarrow> (Inl err, issue (GetPage ''https://soundcloud.com/'') s)
      | Inr webpage \<Rightarrow>
          scan_scripts e (rev (findall_script_src 0 webpage))
            (issue (GetPage ''https://soundcloud.com/'') s))"

text \<open>
  \<^verbatim>\<open>_download_json\<close>: the loop \<^verbatim>\<open>for _ in range(2)\<close>, with the number of rounds left.
  The positional and keyword arguments other than the URL, \<^verbatim>\<open>query\<close> and \<^verbatim>\<open>fatal\<close> are
  passed on unchanged and are not modelled. \<open>non_fatal\<close> is \<^verbatim>\<open>kwargs.get('fatal') is False\<close>.
  Falling off the end of the loop returns \<^verbatim>\<open>None\<close>.
\<close>

definition auth_rejected :: "cause option \<Rightarrow> bool" where
  "auth_rejected c = (c = Some (HTTPError 401) \<or> c = Some (HTTPError 403))"

fun download_json_loop ::
  "nat \<Rightarrow> env \<Rightarrow> json \<Rightarrow> dict \<Rightarrow> bool \<Rightarrow> state \<Rightarrow> (extractor_error + json) \<times> state" where
  "download_json_loop 0 e url query non_fatal s = (Inr JNull, s)"
| "download_json_loop (Suc rounds) e url query non_fatal s =
     (let query = dict_set ''client_id'' (JStr (CLIENT_ID s)) query in
      case json_reply e (requests s) url query of
        Inr j \<Rightarrow> (Inr j, issue (GetJson url query) s)
      | Inl (msg, c) \<Rightarrow>
          if auth_rejected c then
            (case update_client_id e (store_client_id None (issue (GetJson url query) s)) of
               (Inl err, s') \<Rightarrow> (Inl err, s')
             | (Inr u, s') \<Rightarrow> download_json_loop rounds e url query non_fatal s')
          else if non_fatal then
            (Inr (JBool False), report_warning msg (issue (GetJson url query) s))
          else (Inl (msg, c), issue (GetJson url query) s))"

definition download_json ::
  "env \<Rightarrow> json \<Rightarrow> dict \<Rightarrow> bool \<Rightarrow> state \<Rightarrow> (extractor_error + json) \<times> state" where
  "download_json e url query non_fatal s = download_json_loop 2 e url query non_fatal s"

section \<open>MetadataExtractor: \<^verbatim>\<open>_extract_info_dict\<close>\<close>

definition API_V2_BASE :: string where
  "API_V2_BASE = ''https://api-v2.soundcloud.com/''"

definition BASE_URL :: string where
  "BASE_URL = ''https://soundcloud.com/''"

definition resolv_url :: "string \<Rightarrow> string" where
  "resolv_url url = API_V2_BASE @ ''resolve?url='' @ url"

text \<open>
  A format dictionary, with the keys this module writes. \<^verbatim>\<open>f.get(k)\<close> is the field; a
  key that is missing and a key bound to \<^verbatim>\<open>None\<close> are both \<open>None\<close>. While
  \<^verbatim>\<open>add_format\<close> runs, \<^verbatim>\<open>f['abr']\<close> is the text of a regular-expression group or an
  integer.
\<close>

datatype abr = AbrText string | AbrInt int

record fmt =
  f_url :: string
  f_ext :: "string option"
  f_abr :: "abr option"
  f_quality :: "int option"
  f_format_note :: "string option"
  f_format_id :: "string option"
  f_protocol :: "string option"
  f_preference :: "int option"
  f_filesize :: "int option"
  f_vcodec :: "string option"

fun truthy_abr :: "abr option \<Rightarrow> bool" where
  "truthy_abr None = False"
| "truthy_abr (Some (AbrText s)) = (s \<noteq> [])"
| "truthy_abr (Some (AbrInt i)) = (i \<noteq> 0)"

text \<open>\<^verbatim>\<open>str_or_none(f.get('abr'))\<close> and \<^verbatim>\<open>int(abr)\<close>.\<close>

fun str_or_none_abr :: "abr option \<Rightarrow> string option" where
  "str_or_none_abr None = None"
| "str_or_none_abr (Some (AbrText s)) = Some s"
| "str_or_none_abr (Some (AbrInt i)) = Some (str_of_int i)"

fun int_abr :: "abr \<Rightarrow> int" where
  "int_abr (AbrText s) = int_of_digits s"
| "int_abr (AbrInt i) = i"

text \<open>
  \<^verbatim>\<open>re.search(r'\.(?P<abr>\d+)\.(?P<ext>[0-9a-z]{3,4})(?=[/?])', stream_url)\<close>: the groups
  of the leftmost match. The digits are taken greedily, then four characters of the
  extension are tried before three.
\<close>

definition is_ext_char :: "char \<Rightarrow> bool" where
  "is_ext_char c = (c \<in> set ''0123456789abcdefghijklmnopqrstuvwxyz'')"

definition lookahead_slash_query :: "string \<Rightarrow> bool" where
  "lookahead_slash_query r = (case r of [] \<Rightarrow> False | c # cs \<Rightarrow> c = CHR ''/'' \<or> c = CHR ''?'')"

definition match_abr_ext_at :: "string \<Rightarrow> (string \<times> string) option" where
  "match_abr_ext_at s =
     (case s of
        [] \<Rightarrow> None
      | c # r \<Rightarrow>
          (let digits = takeWhile is_digit r;
               r1 = drop (length digits) r;
               r2 = drop 1 r1
           in if c = CHR ''.'' \<and> digits \<noteq> [] \<and> prefix ''.'' r1 then
                if length (take 4 r2) = 4 \<and> list_all is_ext_char (take 4 r2)
                   \<and> lookahead_slash_query (drop 4 r2)
                then Some (digits, take 4 r2)
                else if length (take 3 r2) = 3 \<and> list_all is_ext_char (take 3 r2)
                        \<and> lookahead_slash_query (drop 3 r2)
                then Some (digits, take 3 r2)
                else None
              else None))"

fun search_abr_ext :: "string \<Rightarrow> (string \<times> string) option" where
  "search_abr_ext [] = None"
| "search_abr_ext (c # cs) =
     (case match_abr_ext_at (c # cs) of
        Some m \<Rightarrow> Some m
      | None \<Rightarrow> search_abr_ext cs)"

text \<open>\<^verbatim>\<open>re.search(r'/(?:preview|playlist)/0/30/', f['url'])\<close>, as a truth value.\<close>

definition search_preview :: "string \<Rightarrow> bool" where
  "search_preview url = (contains ''/preview/0/30/'' url \<or> contains ''/playlist/0/30/'' url)"

text \<open>
  \<^verbatim>\<open>add_format(f, protocol, is_preview)\<close>, lines 243 to 278. \<open>stream_url\<close> is the variable
  of the enclosing scope the function reads. The result is the dictionary appended to
  \<^verbatim>\<open>formats\<close>.
\<close>

definition add_format :: "string \<Rightarrow> fmt \<Rightarrow> string option \<Rightarrow> bool \<Rightarrow> fmt" where
  "add_format stream_url f protocol is_preview =
     (let mobj = search_abr_ext stream_url;
          f = (case mobj of
                 None \<Rightarrow> f
               | Some (abr_group, ext_group) \<Rightarrow>
                   (let f = (if \<not> truthy_abr (f_abr f) then f\<lparr>f_abr := Some (AbrText abr_group)\<rparr> else f);
                        f = (if \<not> truthy_str (f_ext f) then f\<lparr>f_ext := Some ext_group\<rparr> else f)
                    in f));
          format_id_list = (if truthy_str protocol then [the protocol] else []);
          ext = f_ext f;
          f = (if ext = Some ''aac''
               then f\<lparr>f_abr := Some (AbrInt 256), f_quality := Some 5, f_format_note := Some ''Premium''\<rparr>
               else f);
          format_id_list = format_id_list @ (if truthy_str (f_ext f) then [the (f_ext f)] else []);
          format_id_list = format_id_list
             @ (if truthy_str (str_or_none_abr (f_abr f)) then [the (str_or_none_abr (f_abr f))] else []);
          preview = (is_preview \<or> search_preview (f_url f));
          format_id_list = format_id_list @ (if preview then [''preview''] else []);
          f = (if truthy_abr (f_abr f) then f\<lparr>f_abr := Some (AbrInt (int_abr (the (f_abr f))))\<rparr> else f);
          protocol = (if protocol = Some ''hls'' \<or> protocol = Some ''hls-aes''
                      then (if ext = Some ''aac'' then ''m3u8'' else ''m3u8_native'')
                      else ''http'')
      in f\<lparr>f_format_id := Some (join ''_'' format_id_list),
            f_protocol := Some protocol,
            f_preference := (if preview then Some (- 10) else None)\<rparr>)"

text \<open>The dictionary \<^verbatim>\<open>{'url': stream_url, 'ext': ext}\<close> passed at line 325.\<close>

definition new_fmt :: "string \<Rightarrow> string option \<Rightarrow> fmt" where
  "new_fmt stream_url ext =
     \<lparr>f_url = stream_url, f_ext = ext, f_abr = None, f_quality = None, f_format_note = None,
      f_format_id = None, f_protocol = None, f_preference = None, f_filesize = None,
      f_vcodec = None\<rparr>"

text \<open>The descriptor of the original download, lines 231 to 238.\<close>

definition download_fmt :: "urlh \<Rightarrow> fmt" where
  "download_fmt h =
     \<lparr>f_url = handle_url h,
      f_ext = (if truthy_str (handle_ext h) then handle_ext h else Some ''mp3''),
      f_abr = None, f_quality = Some 10, f_format_note = Some ''Original'',
      f_format_id = Some ''download'', f_protocol = None, f_preference = None,
      f_filesize = handle_length h, f_vcodec = None\<rparr>"

text \<open>\<^verbatim>\<open>invalid_url\<close>, lines 240 and 241, on the result of \<^verbatim>\<open>url_or_none\<close>.\<close>

definition invalid_url :: "string set \<Rightarrow> string option \<Rightarrow> bool" where
  "invalid_url format_urls url = (\<not> truthy_str url \<or> the url \<in> format_urls)"

text \<open>\<^verbatim>\<open>v[k]\<close> on a decoded value.\<close>

definition subscript :: "json \<Rightarrow> string \<Rightarrow> exn + json" where
  "subscript v k =
     (case v of
        JObj kvs \<Rightarrow> (case map_of kvs k of Some x \<Rightarrow> Inr x | None \<Rightarrow> Inl (KeyError k))
      | _ \<Rightarrow> Inl TypeError)"

fun is_obj :: "json \<Rightarrow> bool" where
  "is_obj (JObj kvs) = True"
| "is_obj _ = False"

text \<open>
  Lines 221 to 238, once the payload is downloadable: the \<^verbatim>\<open>/download\<close> call (made with
  \<^verbatim>\<open>fatal=False\<close> and no \<^verbatim>\<open>query\<close> of its own), then the \<^verbatim>\<open>HEAD\<close> probe of the
  redirect, also made with \<^verbatim>\<open>fatal=False\<close>. The result is \<^verbatim>\<open>format_urls\<close> and
  \<^verbatim>\<open>formats\<close>.
\<close>

definition original_download ::
  "env \<Rightarrow> string \<Rightarrow> dict \<Rightarrow> state \<Rightarrow> (exn + string set \<times> fmt list) \<times> state" where
  "original_download e track_id query s =
     (let download_url = update_url_query e (API_V2_BASE @ ''tracks/'' @ track_id @ ''/download'') query in
      case download_json e (JStr download_url) [] True s of
        (Inl (msg, c), s1) \<Rightarrow> (Inl (ExtractorError msg c), s1)
      | (Inr r, s1) \<Rightarrow>
          if truthy r \<and> \<not> is_obj r then (Inl AttributeError, s1)
          else
            (let redirect_url = obj_get r ''redirectUri'' in
             if truthy redirect_url then
               (case head_reply e (requests s1) redirect_url of
                  Inl (msg, c) \<Rightarrow> (Inr ({}, []), report_warning msg (issue (Head redirect_url) s1))
                | Inr urlh \<Rightarrow>
                    (Inr ({handle_url urlh}, [download_fmt urlh]), issue (Head redirect_url) s1))
             else (Inr ({}, []), s1)))"

text \<open>
  Modelled from the spec: \<^verbatim>\<open>traverse_obj\<close> is missing from the sources; the transcodings
  are the entries of the list \<^verbatim>\<open>info['media']['transcodings']\<close> that are dictionaries
  whose \<^verbatim>\<open>url\<close> passes \<^verbatim>\<open>url_or_none\<close>; every other shape gives none. Each is paired with
  its \<^verbatim>\<open>t['url']\<close>.
\<close>

definition transcoding_url :: "env \<Rightarrow> json \<Rightarrow> string option" where
  "transcoding_url e t =
     (case t of
        JObj kvs \<Rightarrow>
          (case map_of kvs ''url'' of
             Some (JStr u) \<Rightarrow> (if truthy_str (url_or_none e (JStr u)) then Some u else None)
           | _ \<Rightarrow> None)
      | _ \<Rightarrow> None)"

definition transcodings_of :: "env \<Rightarrow> json \<Rightarrow> (string \<times> json) list" where
  "transcodings_of e info =
     (case obj_get (obj_get info ''media'') ''transcodings'' of
        JList ts \<Rightarrow> List.map_filter (\<lambda>t. map_option (\<lambda>u. (u, t)) (transcoding_url e t)) ts
      | _ \<Rightarrow> [])"

definition RATE_LIMIT_WARNING :: string where
  "RATE_LIMIT_WARNING =
     ''You have reached the API rate limit, which is ~600 requests per '' @
     ''10 minutes. Use the --extractor-retries and --retry-sleep options '' @
     ''to configure an appropriate retry count and wait time''"

text \<open>
  Modelled from the spec: \<^verbatim>\<open>RetryManager\<close> is missing from the sources; it is a bounded
  loop that counts attempts: an attempt that records no error ends it, an attempt that
  records one is followed by another until the bound is reached. Here (lines 305 to 319,
  \<^verbatim>\<open>fatal=False\<close>) only a 429 records an error, and exhaustion is not raised: the stream
  stays \<^verbatim>\<open>None\<close>. \<open>retries\<close> is the number of attempts left after this one. The
  warnings of the RetryManager itself are not modelled.
\<close>

fun fetch_stream :: "nat \<Rightarrow> env \<Rightarrow> string \<Rightarrow> dict \<Rightarrow> state \<Rightarrow> json \<times> state" where
  "fetch_stream 0 e format_url query s =
     (case download_json e (JStr format_url) query False s of
        (Inr stream, s1) \<Rightarrow> (stream, s1)
      | (Inl (msg, c), s1) \<Rightarrow>
          if c = Some (HTTPError 429) then (JNull, report_warning_once RATE_LIMIT_WARNING s1)
          else (JNull, report_warning msg s1))"
| "fetch_stream (Suc retries) e format_url query s =
     (case download_json e (JStr format_url) query False s of
        (Inr stream, s1) \<Rightarrow> (stream, s1)
      | (Inl (msg, c), s1) \<Rightarrow>
          if c = Some (HTTPError 429)
          then fetch_stream retries e format_url query (report_warning_once RATE_LIMIT_WARNING s1)
          else (JNull, report_warning msg s1))"

text \<open>The body of the loop over the transcodings, lines 284 to 328, on the variables
  \<^verbatim>\<open>format_urls\<close>, \<^verbatim>\<open>formats\<close> and the state.\<close>

definition transcoding_step ::
  "env \<Rightarrow> dict \<Rightarrow> string \<times> json \<Rightarrow> string set \<times> fmt list \<times> state \<Rightarrow> string set \<times> fmt list \<times> state" where
  "transcoding_step e query ut acc =
     (case (ut, acc) of ((format_url, t), (format_urls, formats, s)) \<Rightarrow>
        (let protocol = transcoding_protocol t format_url;
             ext = transcoding_ext e t;
             identifier = transcoding_identifier e t format_url
         in if \<not> is_requested (formats_arg e) identifier then (format_urls, formats, s)
            else
              (case fetch_stream (max_attempts e - 1) e format_url query s of
                 (stream, s1) \<Rightarrow>
                   (let stream_url = url_or_none e (obj_get stream ''url'') in
                    if invalid_url format_urls stream_url then (format_urls, formats, s1)
                    else
                      (insert (the stream_url) format_urls,
                       formats @ [add_format (the stream_url) (new_fmt (the stream_url) ext) protocol
                                    (truthy (obj_get t ''snipped'') \<or> contains ''/preview/'' format_url)],
                       s1)))))"

fun transcodings_loop ::
  "env \<Rightarrow> dict \<Rightarrow> (string \<times> json) list \<Rightarrow> string set \<times> fmt list \<times> state \<Rightarrow> string set \<times> fmt list \<times> state" where
  "transcodings_loop e query [] acc = acc"
| "transcodings_loop e query (ut # uts) acc = transcodings_loop e query uts (transcoding_step e query ut acc)"

text \<open>
  The record returned: the identifier and the formats (\<open>None\<close> in flat mode). The other
  fields (title, uploader, thumbnails, counters) are computed from the payload alone,
  issue no request and do not touch the formats; of their computation only the errors it
  can raise are kept.
\<close>

record info_dict =
  r_id :: string
  r_formats :: "fmt list option"

definition extract_info_dict ::
  "env \<Rightarrow> json \<Rightarrow> string option \<Rightarrow> bool \<Rightarrow> state \<Rightarrow> (exn + info_dict) \<times> state" where
  "extract_info_dict e info secret_token extract_flat s =
     (case subscript info ''id'' of
        Inl err \<Rightarrow> (Inl err, s)
      | Inr id_value \<Rightarrow>
     (case subscript info ''title'' of
        Inl err \<Rightarrow> (Inl err, s)
      | Inr title \<Rightarrow>
     (let track_id = compat_str e id_value;
          query = [(''client_id'', JStr (CLIENT_ID s))];
          query = (if truthy_str secret_token then dict_set ''secret_token'' (JStr (the secret_token)) query
                   else query)
      in
      case (if \<not> extract_flat \<and> truthy (obj_get info ''downloadable'')
               \<and> truthy (obj_get info ''has_downloads_left'')
            then original_download e track_id query s
            else (Inr ({}, []), s)) of
        (Inl err, s1) \<Rightarrow> (Inl err, s1)
      | (Inr (format_urls, formats), s1) \<Rightarrow>
     (case (if extract_flat then (format_urls, formats, s1)
            else transcodings_loop e query (transcodings_of e info) (format_urls, formats, s1)) of
        (format_urls, formats, s2) \<Rightarrow>
     (let formats = map (\<lambda>f. f\<lparr>f_vcodec := Some ''none''\<rparr>) formats;
          user = obj_get info ''user''
      in if formats = [] \<and> obj_get info ''policy'' = JStr ''BLOCK'' then (Inl GeoRestrictedError, s2)
         else if truthy user \<and> \<not> is_obj user then (Inl AttributeError, s2)
         else (Inr \<lparr>r_id = track_id, r_formats = (if \<not> extract_flat then Some formats else None)\<rparr>,
               s2))))))"

section \<open>ResourceResolver: \<^verbatim>\<open>SoundcloudIE._real_extract\<close>\<close>

text \<open>
  What \<^verbatim>\<open>_match_valid_url\<close> finds in a locator: the groups \<^verbatim>\<open>track_id\<close> and
  \<^verbatim>\<open>secret_token\<close> of an API URL, or the groups \<^verbatim>\<open>uploader\<close>, \<^verbatim>\<open>title\<close> and \<^verbatim>\<open>token\<close>
  of a permalink.
\<close>

datatype locator =
    ApiTrack string "string option"
  | Permalink string string "string option"

definition real_extract :: "env \<Rightarrow> locator \<Rightarrow> state \<Rightarrow> (exn + info_dict) \<times> state" where
  "real_extract e loc s =
     (case (case loc of
              ApiTrack track_id secret_token \<Rightarrow>
                (API_V2_BASE @ ''tracks/'' @ track_id, secret_token,
                 if truthy_str secret_token then [(''secret_token'', JStr (the secret_token))] else [])
            | Permalink uploader title token \<Rightarrow>
                (resolv_url (BASE_URL @ uploader @ ''/'' @ title
                             @ (if truthy_str token then ''/'' @ the token else [])),
                 token, [])) of
        (info_json_url, token, query) \<Rightarrow>
          (case download_json e (JStr info_json_url) query False s of
             (Inl (msg, c), s1) \<Rightarrow> (Inl (ExtractorError msg c), s1)
           | (Inr info, s1) \<Rightarrow> extract_info_dict e info token False s1))"

section \<open>The explicit error list of a resolve payload\<close>

text \<open>\<^verbatim>\<open>for x in v\<close> on a decoded value: the elements of a list, the keys of a dictionary,
  the characters of a string; nothing else can be iterated.\<close>

definition py_iter :: "json \<Rightarrow> exn + json list" where
  "py_iter v =
     (case v of
        JList xs \<Rightarrow> Inr xs
      | JObj kvs \<Rightarrow> Inr (map (\<lambda>kv. JStr (fst kv)) kvs)
      | JStr cs \<Rightarrow> Inr (map (\<lambda>c. JStr [c]) cs)
      | _ \<Rightarrow> Inl TypeError)"

text \<open>\<^verbatim>\<open>'errors' in info\<close>.\<close>

definition py_in :: "string \<Rightarrow> json \<Rightarrow> exn + bool" where
  "py_in k v =
     (case v of
        JObj kvs \<Rightarrow> Inr (k \<in> fst ` set kvs)
      | JList xs \<Rightarrow> Inr (JStr k \<in> set xs)
      | JStr cs \<Rightarrow> Inr (contains k cs)
      | _ \<Rightarrow> Inl TypeError)"

text \<open>The generator \<^verbatim>\<open>str(err['error_message']) for err in errors\<close>, run to its end by
  \<^verbatim>\<open>','.join\<close>: the messages, or the first exception.\<close>

fun error_messages :: "env \<Rightarrow> json list \<Rightarrow> exn + string list" where
  "error_messages e [] = Inr []"
| "error_messages e (err # errs) =
     (case subscript err ''error_message'' of
        Inl x \<Rightarrow> Inl x
      | Inr m \<Rightarrow>
          (case error_messages e errs of
             Inl x \<Rightarrow> Inl x
           | Inr ms \<Rightarrow> Inr (compat_str e m # ms)))"

definition raise_errors :: "env \<Rightarrow> string \<Rightarrow> json \<Rightarrow> exn" where
  "raise_errors e intro errors =
     (case py_iter errors of
        Inl x \<Rightarrow> x
      | Inr errs \<Rightarrow>
          (case error_messages e errs of
             Inl x \<Rightarrow> x
           | Inr msgs \<Rightarrow> ExtractorError (intro @ join '','' msgs) None))"

text \<open>
  \<^verbatim>\<open>SoundcloudSetIE._real_extract\<close>, lines 696 to 711, up to the call of
  \<^verbatim>\<open>_extract_set\<close>: the result is the payload handed to it. The arguments are the groups
  \<^verbatim>\<open>uploader\<close>, \<^verbatim>\<open>slug_title\<close> and \<^verbatim>\<open>token\<close>.
\<close>

definition set_real_extract ::
  "env \<Rightarrow> string \<Rightarrow> string \<Rightarrow> string option \<Rightarrow> state \<Rightarrow> (exn + json) \<times> state" where
  "set_real_extract e uploader slug_title token s =
     (let full_title = uploader @ ''/sets/'' @ slug_title;
          full_title = (if truthy_str token then full_title @ ''/'' @ the token else full_title)
      in case download_json e (JStr (resolv_url (BASE_URL @ full_title))) [] False s of
           (Inl (msg, c), s1) \<Rightarrow> (Inl (ExtractorError msg c), s1)
         | (Inr info, s1) \<Rightarrow>
             (case py_in ''errors'' info of
                Inl x \<Rightarrow> (Inl x, s1)
              | Inr True \<Rightarrow>
                  (case subscript info ''errors'' of
                     Inl x \<Rightarrow> (Inl x, s1)
                   | Inr errors \<Rightarrow>
                       (Inl (raise_errors e ''unable to download video webpage: '' errors), s1))
              | Inr False \<Rightarrow> (Inr info, s1)))"

text \<open>
  \<^verbatim>\<open>SoundcloudRelatedIE._real_extract\<close>, lines 932 to 945, up to the call of
  \<^verbatim>\<open>_extract_playlist\<close>: the result is the track payload. The argument is the group
  \<^verbatim>\<open>slug\<close>.
\<close>

definition related_real_extract :: "env \<Rightarrow> string \<Rightarrow> state \<Rightarrow> (exn + json) \<times> state" where
  "related_real_extract e slug s =
     (case download_json e (JStr (resolv_url (BASE_URL @ slug))) [] False s of
        (Inl (msg, c), s1) \<Rightarrow> (Inl (ExtractorError msg c), s1)
      | (Inr track, s1) \<Rightarrow>
          if \<not> is_obj track then (Inl AttributeError, s1)
          else if truthy (obj_get track ''errors'')
          then (Inl (raise_errors e ''soundcloud:related said: '' (obj_get track ''errors'')), s1)
          else (Inr track, s1))"

section \<open>PaginatedCollector: \<^verbatim>\<open>_entries\<close>\<close>

text \<open>
  Modelled from the spec: \<^verbatim>\<open>RetryManager\<close> is missing from the sources; see
  \<open>fetch_stream\<close>. Here (lines 733 to 745, the default \<^verbatim>\<open>fatal=True\<close>) only a 502
  records an error, every other \<^verbatim>\<open>ExtractorError\<close> is raised again at once, and on the
  last attempt the recorded error is raised as it is. \<open>retries\<close> is the number of
  attempts left after this one.
\<close>

fun fetch_page :: "nat \<Rightarrow> env \<Rightarrow> json \<Rightarrow> dict \<Rightarrow> state \<Rightarrow> (exn + json) \<times> state" where
  "fetch_page 0 e url query s =
     (case download_json e url query False s of
        (Inr response, s1) \<Rightarrow> (Inr response, s1)
      | (Inl (msg, c), s1) \<Rightarrow> (Inl (ExtractorError msg c), s1))"
| "fetch_page (Suc retries) e url query s =
     (case download_json e url query False s of
        (Inr response, s1) \<Rightarrow> (Inr response, s1)
      | (Inl (msg, c), s1) \<Rightarrow>
          if c \<noteq> Some (HTTPError 502) then (Inl (ExtractorError msg c), s1)
          else fetch_page retries e url query s1)"

text \<open>The result of \<^verbatim>\<open>url_result\<close>.\<close>

record entry =
  e_url :: string
  e_ie_key :: "string option"
  e_id :: "string option"
  e_title :: json

text \<open>\<^verbatim>\<open>resolve_entry(*candidates)\<close>, lines 747 to 756; \<open>None\<close> when no candidate has a
  permalink.\<close>

fun resolve_entry :: "env \<Rightarrow> json list \<Rightarrow> entry option" where
  "resolve_entry e [] = None"
| "resolve_entry e (cand # cands) =
     (if \<not> is_obj cand then resolve_entry e cands
      else
        (let permalink_url = url_or_none e (obj_get cand ''permalink_url'') in
         if truthy_str permalink_url then
           Some \<lparr>e_url = the permalink_url,
                 e_ie_key = (if suitable e (the permalink_url) then Some ''Soundcloud'' else None),
                 e_id = str_or_none e (obj_get cand ''id''),
                 e_title = obj_get cand ''title''\<rparr>
         else resolve_entry e cands))"

text \<open>
  The loop over the items of one page, lines 758 and 759: what is yielded, and the
  exception that ends the generator, if any (\<^verbatim>\<open>e.get\<close> on an item that is no
  dictionary).
\<close>

fun yield_entries :: "env \<Rightarrow> json list \<Rightarrow> entry option list \<times> exn option" where
  "yield_entries e [] = ([], None)"
| "yield_entries e (item # items) =
     (if \<not> is_obj item then ([], Some AttributeError)
      else
        (case yield_entries e items of
           (ys, err) \<Rightarrow>
             (resolve_entry e [item, obj_get item ''track'', obj_get item ''playlist''] # ys, err)))"

definition page_entries :: "env \<Rightarrow> json \<Rightarrow> entry option list \<times> exn option" where
  "page_entries e response =
     (case subscript response ''collection'' of
        Inl x \<Rightarrow> ([], Some x)
      | Inr collection \<Rightarrow>
          if \<not> truthy collection then ([], None)
          else
            (case py_iter collection of
               Inl x \<Rightarrow> ([], Some x)
             | Inr items \<Rightarrow> yield_entries e items))"

text \<open>
  The loop \<^verbatim>\<open>for i in itertools.count()\<close>. It ends only when a page has no
  \<^verbatim>\<open>next_href\<close> or an exception is raised, so the model counts pages: \<open>None\<close> means that
  the generator was not exhausted within \<open>fuel\<close> pages. Otherwise the result is what the
  generator yields, in order, the exception that ends it, if any, and the state.
\<close>

fun entries_loop ::
  "nat \<Rightarrow> env \<Rightarrow> json \<Rightarrow> dict \<Rightarrow> state \<Rightarrow> ((entry option list \<times> exn option) \<times> state) option" where
  "entries_loop 0 e url query s = None"
| "entries_loop (Suc fuel) e url query s =
     (case fetch_page (max_attempts e - 1) e url query s of
        (Inl x, s1) \<Rightarrow> Some (([], Some x), s1)
      | (Inr response, s1) \<Rightarrow>
          (case page_entries e response of
             (ys, Some x) \<Rightarrow> Some ((ys, Some x), s1)
           | (ys, None) \<Rightarrow>
               (let url = obj_get response ''next_href'' in
                if \<not> truthy url then Some ((ys, None), s1)
                else
                  (case entries_loop fuel e url (dict_pop ''offset'' query) s1 of
                     None \<Rightarrow> None
                   | Some ((zs, err), s2) \<Rightarrow> Some ((ys @ zs, err), s2)))))"

definition entries ::
  "nat \<Rightarrow> env \<Rightarrow> string \<Rightarrow> state \<Rightarrow> ((entry option list \<times> exn option) \<times> state) option" where
  "entries fuel e url s =
     entries_loop fuel e (JStr url)
       [(''limit'', JInt 200), (''linked_partitioning'', JStr ''1''), (''offset'', JInt 0)] s"

section \<open>Observing the requests\<close>

text \<open>The JSON requests among the requests issued, in order.\<close>

fun is_json_request :: "request \<Rightarrow> bool" where
  "is_json_request (GetJson url query) = True"
| "is_json_request _ = False"

definition json_requests :: "request list \<Rightarrow> request list" where
  "json_requests rs = filter is_json_request rs"

fun is_page_request :: "request \<Rightarrow> bool" where
  "is_page_request (GetPage url) = True"
| "is_page_request _ = False"

fun is_head_request :: "request \<Rightarrow> bool" where
  "is_head_request (Head url) = True"
| "is_head_request _ = False"

text \<open>From \<open>s\<close> to \<open>s'\<close> requests were only added, and each of them satisfies \<open>P\<close>.\<close>

definition adds_only :: "(request \<Rightarrow> bool) \<Rightarrow> state \<Rightarrow> state \<Rightarrow> bool" where
  "adds_only P s s' = (\<exists>new. requests s' = requests s @ new \<and> list_all P new)"

text \<open>
  The invariant of the loop over the transcodings, on \<^verbatim>\<open>format_urls\<close>, \<^verbatim>\<open>formats\<close> and
  the state: the descriptors collected have distinct URLs, \<^verbatim>\<open>format_urls\<close> is the set of
  these URLs, and a descriptor that went through \<^verbatim>\<open>add_format\<close> (it has a protocol) has
  a URL that is not empty.
\<close>

definition collected_ok :: "string set \<times> fmt list \<times> state \<Rightarrow> bool" where
  "collected_ok acc =
     (case acc of (format_urls, formats, s) \<Rightarrow>
        distinct (map f_url formats) \<and> set (map f_url formats) = format_urls
        \<and> (\<forall>f\<in>set formats. f_protocol f \<noteq> None \<longrightarrow> f_url f \<noteq> []))"

text \<open>A descriptor built from a transcoding (it has a protocol) whose extension is
  \<^verbatim>\<open>aac\<close> has the premium fields.\<close>

definition premium_ok :: "fmt \<Rightarrow> bool" where
  "premium_ok f =
     (f_protocol f \<noteq> None \<longrightarrow> f_ext f = Some ''aac'' \<longrightarrow>
        f_abr f = Some (AbrInt 256) \<and> f_quality f = Some 5 \<and> f_format_note f = Some ''Premium'')"

text \<open>
  A JSON request carries the secret token \<open>tok\<close> when \<^verbatim>\<open>secret_token\<close> is bound to it in
  the query, or when the URL was built by \<^verbatim>\<open>update_url_query\<close> from a query that binds
  \<^verbatim>\<open>client_id\<close> and then \<^verbatim>\<open>secret_token\<close> to it.
\<close>

definition carries_token :: "env \<Rightarrow> string \<Rightarrow> request \<Rightarrow> bool" where
  "carries_token e tok r =
     (case r of
        GetJson url query \<Rightarrow>
          map_of query ''secret_token'' = Some (JStr tok)
          \<or> (\<exists>base c. url = JStr (update_url_query e base
                                      [(''client_id'', JStr c), (''secret_token'', JStr tok)]))
      | _ \<Rightarrow> False)"

text \<open>What one call of \<^verbatim>\<open>_download_json\<close> may add to the requests: page requests of the
  refresh, and JSON requests for the same URL whose query is the given one with a client
  id.\<close>

definition same_request :: "json \<Rightarrow> dict \<Rightarrow> request \<Rightarrow> bool" where
  "same_request url query r =
     (is_page_request r \<or> (\<exists>c. r = GetJson url (dict_set ''client_id'' (JStr c) query)))"

text \<open>The secret token of a locator; a resolve request whose permalink ends with the
  token; and the requirement on a request: a JSON request carries the token, as a
  parameter or in the permalink it resolves.\<close>

fun locator_token :: "locator \<Rightarrow> string option" where
  "locator_token (ApiTrack track_id secret_token) = secret_token"
| "locator_token (Permalink uploader title token) = token"

definition in_resolve_url :: "string \<Rightarrow> request \<Rightarrow> bool" where
  "in_resolve_url tok r =
     (case r of
        GetJson url query \<Rightarrow>
          (\<exists>uploader title. url = JStr (resolv_url (BASE_URL @ uploader @ ''/'' @ title @ ''/'' @ tok)))
      | _ \<Rightarrow> False)"

definition token_ok :: "env \<Rightarrow> string \<Rightarrow> request \<Rightarrow> bool" where
  "token_ok e tok r = (is_json_request r \<longrightarrow> carries_token e tok r \<or> in_resolve_url tok r)"

text \<open>
  The requests the collector is expected to make for a sequence of pages, in the words
  of the specification: the first with \<^verbatim>\<open>limit\<close>, \<^verbatim>\<open>linked_partitioning\<close> and
  \<^verbatim>\<open>offset = 0\<close>, then one per continuation URL, without the offset. The current client id
  is part of every query. The cursor of a sequence of pages ends it when every page but
  the last has a continuation URL and the last has none.
\<close>

definition next_href :: "json \<Rightarrow> json" where
  "next_href page = obj_get page ''next_href''"

definition expected_page_requests :: "string \<Rightarrow> string \<Rightarrow> json list \<Rightarrow> request list" where
  "expected_page_requests url client_id pages =
     GetJson (JStr url)
       [(''limit'', JInt 200), (''linked_partitioning'', JStr ''1''), (''offset'', JInt 0),
        (''client_id'', JStr client_id)]
     # map (\<lambda>page. GetJson (next_href page)
               [(''limit'', JInt 200), (''linked_partitioning'', JStr ''1''),
                (''client_id'', JStr client_id)])
           (butlast pages)"

fun cursor_ends :: "json list \<Rightarrow> bool" where
  "cursor_ends [] = False"
| "cursor_ends [page] = (\<not> truthy (next_href page))"
| "cursor_ends (page # page' # pages) = (truthy (next_href page) \<and> cursor_ends (page' # pages))"

section \<open>Fixtures\<close>

text \<open>Concrete payloads, transports and states, used to run the model.\<close>

definition stale_state :: state where
  "stale_state = \<lparr>CLIENT_ID = ''stale'', cache = Some ''stale'', requests = [], warnings = []\<rparr>"

definition fresh_id :: string where
  "fresh_id = ''0123456789abcdef0123456789ABCDEF''"

definition home_page :: string where
  "home_page = ''<html><script crossorigin src='' @ [dquote] @ ''https://a-v2.sndcdn.com/assets/app.js''
                 @ [dquote] @ ''></script></html>''"

definition app_js :: string where
  "app_js = ''var o={client_id: '' @ [dquote] @ fresh_id @ [dquote] @ '',env:1}''"

definition http_401 :: extractor_error where
  "http_401 = (''HTTP Error 401: Unauthorized'', Some (HTTPError 401))"


text \<open>A stand-in for \<^verbatim>\<open>update_url_query\<close> on a URL without a query, for values that need
  no escaping.\<close>

definition plain_url_query :: "string \<Rightarrow> dict \<Rightarrow> string" where
  "plain_url_query url query =
     url @ ''?'' @ join ''&'' (map (\<lambda>kv. fst kv @ ''='' @ (case snd kv of JStr v \<Rightarrow> v | _ \<Rightarrow> [])) query)"

text \<open>A transport that rejects every JSON request with 401 and serves a home page whose
  one script embeds \<open>fresh_id\<close>. The helper stand-ins accept \<^verbatim>\<open>https\<close> URLs.\<close>

definition rejecting_env :: env where
  "rejecting_env =
     \<lparr>url_or_none_str = (\<lambda>u. if prefix ''https://'' u then Some u else None),
      mimetype2ext = (\<lambda>m. if m = Some ''audio/mpeg'' then Some ''mp3'' else None),
      KNOWN_EXTENSIONS = [''mp3'', ''aac'', ''opus'', ''m4a'', ''ogg''],
      update_url_query = plain_url_query,
      py_repr = (\<lambda>v. ''?''),
      suitable = (\<lambda>u. True),
      formats_arg = None,
      max_attempts = 3,
      json_reply = (\<lambda>lg url q. Inl http_401),
      page_reply = (\<lambda>lg u. if u = ''https://soundcloud.com/'' then Inr home_page
                             else if u = ''https://a-v2.sndcdn.com/assets/app.js'' then Inr app_js
                             else Inl (''HTTP Error 404: Not Found'', Some (HTTPError 404))),
      head_reply = (\<lambda>lg u. Inl (''HTTP Error 404: Not Found'', Some (HTTPError 404)))\<rparr>"



text \<open>The same as \<open>rejecting_env\<close>, but the home page names a second script, which is
  tried first and cannot be fetched.\<close>

definition two_script_page :: string where
  "two_script_page = ''<html><script src='' @ [dquote] @ ''https://a-v2.sndcdn.com/assets/app.js''
                 @ [dquote] @ ''></script><script src='' @ [dquote]
                 @ ''https://a-v2.sndcdn.com/assets/gone.js'' @ [dquote] @ ''></script></html>''"

definition missing_script_env :: env where
  "missing_script_env =
     rejecting_env\<lparr>page_reply := (\<lambda>lg u. if u = ''https://soundcloud.com/'' then Inr two_script_page
                                            else if u = ''https://a-v2.sndcdn.com/assets/app.js'' then Inr app_js
                                            else Inl (''HTTP Error 404: Not Found'', Some (HTTPError 404)))\<rparr>"

text \<open>Three pages of 2, 2 and 1 items; the third has \<^verbatim>\<open>next_href = null\<close>.\<close>

definition item :: "string \<Rightarrow> json" where
  "item name = JObj [(''permalink_url'', JStr (''https://soundcloud.com/u/'' @ name)),
                     (''id'', JStr name), (''title'', JStr name)]"

definition page1 :: json where
  "page1 = JObj [(''collection'', JList [item ''a'', item ''b'']),
                 (''next_href'', JStr ''https://api-v2.soundcloud.com/users/1/tracks?offset=2'')]"

definition page2 :: json where
  "page2 = JObj [(''collection'', JList [item ''c'', item ''d'']),
                 (''next_href'', JStr ''https://api-v2.soundcloud.com/users/1/tracks?offset=4'')]"

definition page3 :: json where
  "page3 = JObj [(''collection'', JList [item ''e'']), (''next_href'', JNull)]"

text \<open>A transport that serves the three pages by URL.\<close>

definition paged_env :: env where
  "paged_env =
     rejecting_env\<lparr>json_reply := (\<lambda>lg url q.
        if url = JStr ''https://api-v2.soundcloud.com/users/1/tracks'' then Inr page1
        else if url = JStr ''https://api-v2.soundcloud.com/users/1/tracks?offset=2'' then Inr page2
        else if url = JStr ''https://api-v2.soundcloud.com/users/1/tracks?offset=4'' then Inr page3
        else Inl (''HTTP Error 404: Not Found'', Some (HTTPError 404)))\<rparr>"





text \<open>Resolve payloads with an error list, and transports that answer every JSON request
  with them.\<close>

definition not_found_payload :: json where
  "not_found_payload = JObj [(''errors'', JList [JObj [(''error_message'', JStr ''not found'')]])]"

definition no_errors_payload :: json where
  "no_errors_payload = JObj [(''errors'', JList []), (''id'', JInt 7), (''title'', JStr ''t'')]"

definition not_found_env :: env where
  "not_found_env = rejecting_env\<lparr>json_reply := (\<lambda>lg url q. Inr not_found_payload)\<rparr>"

definition no_errors_env :: env where
  "no_errors_env = rejecting_env\<lparr>json_reply := (\<lambda>lg url q. Inr no_errors_payload)\<rparr>"

text \<open>
  A track with two HLS transcodings of the presets \<^verbatim>\<open>mp3_0_0\<close> and \<^verbatim>\<open>mp3_1_0\<close>, and a
  private, downloadable track with one. The transport serves the track payload, the
  \<^verbatim>\<open>/download\<close> call and the playable URL of each transcoding, by URL.
\<close>

definition hls_transcoding :: "string \<Rightarrow> string \<Rightarrow> json" where
  "hls_transcoding name preset =
     JObj [(''url'', JStr (''https://api-v2.soundcloud.com/media/7/'' @ name @ ''/stream/hls'')),
           (''preset'', JStr preset),
           (''format'', JObj [(''protocol'', JStr ''hls''), (''mime_type'', JStr ''audio/mpeg'')])]"

definition twin_info :: json where
  "twin_info =
     JObj [(''id'', JInt 7), (''title'', JStr ''t''),
           (''media'', JObj [(''transcodings'',
              JList [hls_transcoding ''a'' ''mp3_0_0'', hls_transcoding ''b'' ''mp3_1_0''])])]"

definition private_info :: json where
  "private_info =
     JObj [(''id'', JInt 7), (''title'', JStr ''t''),
           (''downloadable'', JBool True), (''has_downloads_left'', JBool True),
           (''media'', JObj [(''transcodings'', JList [hls_transcoding ''a'' ''mp3_0_0''])])]"

definition playable :: "string \<Rightarrow> json" where
  "playable name =
     JObj [(''url'', JStr (''https://cf-hls-media.sndcdn.com/playlist/'' @ name @ ''.128.mp3/playlist.m3u8''))]"

definition track_env :: env where
  "track_env =
     rejecting_env\<lparr>
       json_reply := (\<lambda>lg url q.
         if url = JStr ''https://api-v2.soundcloud.com/tracks/7'' then Inr private_info
         else if url = JStr ''https://api-v2.soundcloud.com/media/7/a/stream/hls'' then Inr (playable ''a'')
         else if url = JStr ''https://api-v2.soundcloud.com/media/7/b/stream/hls'' then Inr (playable ''b'')
         else if url = JStr ''https://api-v2.soundcloud.com/tracks/7/download?client_id=stale&secret_token=s-x''
           then Inr (JObj [(''redirectUri'', JStr ''https://cf-media.sndcdn.com/orig.wav'')])
         else Inl (''HTTP Error 404: Not Found'', Some (HTTPError 404))),
       head_reply := (\<lambda>lg url.
         Inr \<lparr>handle_url = ''https://cf-media.sndcdn.com/orig.wav'', handle_ext = Some ''wav'',
               handle_length = Some 1000\<rparr>)\<rparr>"

text \<open>The same transport, but both transcodings resolve to the playable URL \<^verbatim>\<open>a\<close>.\<close>

definition same_url_env :: env where
  "same_url_env =
     rejecting_env\<lparr>json_reply := (\<lambda>lg url q. Inr (playable ''a''))\<rparr>"

text \<open>The descriptor of the playable URL \<open>name\<close>, as the extraction returns it.\<close>

definition hls_mp3_fmt :: "string \<Rightarrow> fmt" where
  "hls_mp3_fmt name =
     \<lparr>f_url = ''https://cf-hls-media.sndcdn.com/playlist/'' @ name @ ''.128.mp3/playlist.m3u8'',
      f_ext = Some ''mp3'', f_abr = Some (AbrInt 128), f_quality = None, f_format_note = None,
      f_format_id = Some ''hls_mp3_128'', f_protocol = Some ''m3u8_native'', f_preference = None,
      f_filesize = None, f_vcodec = Some ''none''\<rparr>"

text \<open>A track with one HLS transcoding of the preset \<^verbatim>\<open>aac_1_0\<close>; on \<open>track_env\<close> it
  resolves to a playable URL tagged \<^verbatim>\<open>.128.mp3\<close>.\<close>

definition aac_info :: json where
  "aac_info =
     JObj [(''id'', JInt 7), (''title'', JStr ''t''),
           (''media'', JObj [(''transcodings'', JList [hls_transcoding ''a'' ''aac_1_0''])])]"

text \<open>The descriptor that \<open>aac_info\<close> gives on \<open>track_env\<close>.\<close>

definition hls_aac_fmt :: fmt where
  "hls_aac_fmt =
     \<lparr>f_url = ''https://cf-hls-media.sndcdn.com/playlist/a.128.mp3/playlist.m3u8'',
      f_ext = Some ''aac'', f_abr = Some (AbrInt 256), f_quality = Some 5,
      f_format_note = Some ''Premium'', f_format_id = Some ''hls_aac_256'',
      f_protocol = Some ''m3u8'', f_preference = None, f_filesize = None,
      f_vcodec = Some ''none''\<rparr>"

definition track_url :: json where
  "track_url = JStr ''https://api-v2.soundcloud.com/tracks/7''"


definition progressive_on_hls_path :: json where
  "progressive_on_hls_path =
     JObj [(''url'', JStr ''https://api-v2.soundcloud.com/media/hls/1''),
           (''format'', JObj [(''protocol'', JStr ''progressive'')])]"

definition encrypted_on_hls_path :: json where
  "encrypted_on_hls_path =
     JObj [(''url'', JStr ''https://api-v2.soundcloud.com/media/hls/2''),
           (''format'', JObj [(''protocol'', JStr ''encrypted-hls'')])]"

definition tagged_stream_url :: string where
  "tagged_stream_url = ''https://cf-media.sndcdn.com/a.128.mp3?Policy=x''"

section \<open>Properties of the format selector\<close>

lemma tok_match_lits: "tok_match (map Lit p) s = (s = p)"
proof (induction p arbitrary: s)
  case Nil
  then show ?case by simp
next
  case (Cons c p)
  then show ?case by (cases s) auto
qed

lemma tok_match_plain: "CHR ''*'' \<notin> set p \<Longrightarrow> tok_match (compile_pattern p) s = (s = p)"
proof -
  assume a: "CHR ''*'' \<notin> set p"
  have "compile_pattern p = map Lit p"
    unfolding compile_pattern_def using a by (induction p) auto
  then show ?thesis by (simp only: tok_match_lits)
qed

lemma tok_match_escape: "tok_match (re_escape p) s = (s = p)"
  unfolding re_escape_def by (rule tok_match_lits)

text \<open>A configuration, not empty, without wildcard and without \<^verbatim>\<open>default\<close> accepts its
  own entries, in lower case, and nothing else.\<close>

lemma is_requested_plain:
  assumes "ps \<noteq> []" "\<forall>p\<in>set ps. py_lower p \<noteq> ''default'' \<and> CHR ''*'' \<notin> set (py_lower p)"
  shows "is_requested (Some ps) k = (k \<in> set (map py_lower ps))"
proof -
  have "list_ex (\<lambda>alt. tok_match alt k)
          (concat (map (\<lambda>pattern. if pattern \<noteq> ''default'' then [compile_pattern pattern]
                             else map re_escape DEFAULT_FORMATS) qs)) = (k \<in> set qs)"
    if "\<forall>p\<in>set qs. p \<noteq> ''default'' \<and> CHR ''*'' \<notin> set p" for qs
    using that by (induction qs) (auto simp: tok_match_plain)
  from this [of "map py_lower ps"] assms show ?thesis
    unfolding is_requested_def is_requested_alternatives_def configuration_arg_def
    by (cases ps) simp_all
qed

lemma py_lower_default: "py_lower ''default'' = ''default''"
  by code_simp

lemma is_requested_default: "is_requested (Some [''default'']) k = (k \<in> set DEFAULT_FORMATS)"
proof -
  have "is_requested_alternatives (Some [''default'']) = map re_escape DEFAULT_FORMATS"
    by (simp add: is_requested_alternatives_def configuration_arg_def py_lower_default)
  then show ?thesis
    unfolding is_requested_def by (simp add: list_ex_iff tok_match_escape)
qed

lemma is_requested_absent: "is_requested None = is_requested (Some [''default''])"
  by (simp add: fun_eq_iff is_requested_def is_requested_alternatives_def configuration_arg_def
      py_lower_default)

lemma is_requested_empty: "is_requested (Some []) k = (k = [])"
  by (simp add: is_requested_def is_requested_alternatives_def configuration_arg_def)

text \<open>
  Claim C3, as stated, fails for the empty configuration: it does not select what the
  pattern \<^verbatim>\<open>default\<close> selects. The list of patterns is empty, the expression compiled from
  it is the empty one, and the only key it matches as a whole is the empty key:
  \<^verbatim>\<open>hls_aac\<close>, which \<^verbatim>\<open>default\<close> accepts, is rejected.
\<close>

theorem is_requested_empty_counterexample:
  "is_requested (Some [''default'']) ''hls_aac''
   \<and> \<not> is_requested (Some []) ''hls_aac''
   \<and> is_requested (Some []) []
   \<and> \<not> is_requested (Some [''default'']) []"
  by code_simp

text \<open>
  Claim C3, amended. The selector matches a key as a whole: with the configuration
  \<^verbatim>\<open>["hls_aac", "http_mp3"]\<close> it accepts the keys \<^verbatim>\<open>hls_aac\<close> and \<^verbatim>\<open>http_mp3\<close> and no
  other key (not \<^verbatim>\<open>hls_opus\<close>, not a key that only contains or only begins an entry). An
  absent configuration selects what the pattern \<^verbatim>\<open>default\<close> selects, which is exactly the
  six keys of \<^verbatim>\<open>_DEFAULT_FORMATS\<close>. An empty configuration selects the empty key and no
  other.
\<close>

theorem is_requested_whole_string:
  "(\<forall>k. is_requested (Some [''hls_aac'', ''http_mp3'']) k = (k = ''hls_aac'' \<or> k = ''http_mp3''))
   \<and> \<not> is_requested (Some [''hls_aac'', ''http_mp3'']) ''hls_opus''
   \<and> \<not> is_requested (Some [''hls_aac'', ''http_mp3'']) ''hls_aac_preview''
   \<and> \<not> is_requested (Some [''hls_aac'', ''http_mp3'']) ''hls''
   \<and> is_requested None = is_requested (Some [''default''])
   \<and> (\<forall>k. is_requested (Some [''default'']) k = (k \<in> set DEFAULT_FORMATS))
   \<and> (\<forall>k. is_requested (Some []) k = (k = []))"
proof -
  have l: "py_lower ''hls_aac'' = ''hls_aac''" "py_lower ''http_mp3'' = ''http_mp3''"
    by code_simp+
  have a: "is_requested (Some [''hls_aac'', ''http_mp3'']) k = (k = ''hls_aac'' \<or> k = ''http_mp3'')" for k
    using is_requested_plain [of "[''hls_aac'', ''http_mp3'']" k] by (simp add: l)
  show ?thesis
    using is_requested_absent by (simp add: a is_requested_default is_requested_empty)
qed

section \<open>Properties of the format classifier\<close>

text \<open>
  Claim C2, as stated, fails: a transcoding whose raw protocol is \<^verbatim>\<open>progressive\<close> and whose
  URL contains \<^verbatim>\<open>/hls\<close> is classified \<^verbatim>\<open>hls\<close>, not \<^verbatim>\<open>http\<close>; and a raw protocol
  \<^verbatim>\<open>encrypted-hls\<close> on such a URL is classified \<^verbatim>\<open>hls\<close>, not \<^verbatim>\<open>hls-aes\<close>.
\<close>

theorem transcoding_protocol_counterexample:
  "as_str (obj_get (obj_get progressive_on_hls_path ''format'') ''protocol'') = Some ''progressive''
   \<and> transcoding_protocol progressive_on_hls_path ''https://api-v2.soundcloud.com/media/hls/1''
       = Some ''hls''
   \<and> as_str (obj_get (obj_get encrypted_on_hls_path ''format'') ''protocol'') = Some ''encrypted-hls''
   \<and> transcoding_protocol encrypted_on_hls_path ''https://api-v2.soundcloud.com/media/hls/2''
       = Some ''hls''"
  by code_simp

text \<open>
  Claim C2, amended. The protocol is decided by the URL first: a URL containing
  \<^verbatim>\<open>/encrypted-hls\<close> gives \<^verbatim>\<open>hls-aes\<close>, any other URL containing \<^verbatim>\<open>/hls\<close> gives \<^verbatim>\<open>hls\<close>;
  only for the remaining URLs does the raw protocol count: \<^verbatim>\<open>progressive\<close> becomes
  \<^verbatim>\<open>http\<close>, \<^verbatim>\<open>encrypted-hls\<close> becomes \<^verbatim>\<open>hls-aes\<close>, anything else is kept. The extension
  is the leading token of the preset when that token is in \<^verbatim>\<open>KNOWN_EXTENSIONS\<close>, and is
  derived from the MIME type otherwise. The key given to the selector is the join of the
  two.
\<close>

theorem transcoding_identity:
  "transcoding_protocol t format_url =
     (if contains ''/encrypted-hls'' format_url then Some ''hls-aes''
      else if contains ''/hls'' format_url then Some ''hls''
      else if as_str (obj_get (obj_get t ''format'') ''protocol'') = Some ''progressive'' then Some ''http''
      else if as_str (obj_get (obj_get t ''format'') ''protocol'') = Some ''encrypted-hls'' then Some ''hls-aes''
      else as_str (obj_get (obj_get t ''format'') ''protocol''))
   \<and> transcoding_ext e t =
     (if truthy_str (transcoding_preset e t)
         \<and> leading_token (the (transcoding_preset e t)) \<in> set (KNOWN_EXTENSIONS e)
      then Some (leading_token (the (transcoding_preset e t)))
      else mimetype2ext e (as_str (obj_get (obj_get t ''format'') ''mime_type'')))
   \<and> transcoding_identifier e t format_url =
       join_nonempty ''_'' [transcoding_protocol t format_url, transcoding_ext e t]"
  by (simp add: transcoding_protocol_def transcoding_ext_def transcoding_identifier_def Let_def)

section \<open>Properties of \<^verbatim>\<open>add_format\<close>\<close>

lemma add_format_aac_fields:
  assumes "f_ext (add_format stream_url f protocol is_preview) = Some ''aac''"
  shows "f_abr (add_format stream_url f protocol is_preview) = Some (AbrInt 256)
         \<and> f_quality (add_format stream_url f protocol is_preview) = Some 5
         \<and> f_format_note (add_format stream_url f protocol is_preview) = Some ''Premium''"
  using assms by (auto simp: add_format_def Let_def split: option.splits prod.splits if_splits)

lemma transcoding_step_premium:
  assumes "list_all premium_ok (fst (snd acc))"
  shows "list_all premium_ok (fst (snd (transcoding_step e query ut acc)))"
proof -
  obtain format_url t where ut: "ut = (format_url, t)" by (cases ut)
  obtain format_urls formats s where acc: "acc = (format_urls, formats, s)" by (cases acc)
  obtain stream s1 where fs: "fetch_stream (max_attempts e - Suc 0) e format_url query s = (stream, s1)"
    by (cases "fetch_stream (max_attempts e - Suc 0) e format_url query s")
  have "premium_ok (add_format u f p v)" for u f p v
    using add_format_aac_fields [of u f p v] by (simp add: premium_ok_def)
  with assms show ?thesis
    unfolding ut acc by (simp add: transcoding_step_def Let_def fs)
qed

lemma transcodings_loop_premium:
  "list_all premium_ok (fst (snd acc)) \<Longrightarrow>
     list_all premium_ok (fst (snd (transcodings_loop e query uts acc)))"
  by (induction uts arbitrary: acc) (simp_all add: transcoding_step_premium)

lemma transcodings_loop_premium':
  "transcodings_loop e query uts (format_urls, fs, s1) = (format_urls2, fs2, s2) \<Longrightarrow>
     list_all premium_ok fs \<Longrightarrow> list_all premium_ok fs2"
  using transcodings_loop_premium [of "(format_urls, fs, s1)" e query uts] by simp

lemma original_download_premium:
  "original_download e track_id query s = (Inr (format_urls, formats), s1) \<Longrightarrow>
     list_all premium_ok formats"
  by (auto simp: original_download_def Let_def premium_ok_def download_fmt_def
      split: prod.splits sum.splits if_splits option.splits)

lemma premium_ok_vcodec: "premium_ok (f\<lparr>f_vcodec := v\<rparr>) = premium_ok f"
  by (simp add: premium_ok_def)

lemma extract_premium:
  assumes "extract_info_dict e info secret_token extract_flat s = (Inr r, s')"
      and "r_formats r = Some formats"
  shows "list_all premium_ok formats"
  using assms unfolding extract_info_dict_def
  by (auto simp: Let_def list_all_iff premium_ok_vcodec split: sum.splits prod.splits if_splits
      dest!: original_download_premium transcodings_loop_premium')

text \<open>
  Claim C10. A descriptor that leaves \<^verbatim>\<open>add_format\<close> with the extension \<^verbatim>\<open>aac\<close> has the
  bitrate 256, the quality 5 and the note \<^verbatim>\<open>Premium\<close>, whatever bitrate the dictionary
  held before and whatever numeric tag the stream URL carries. So has every descriptor
  with the extension \<^verbatim>\<open>aac\<close> that an extraction returns for a transcoding.
\<close>

theorem add_format_aac:
  "(f_ext (add_format stream_url f protocol is_preview) = Some ''aac'' \<longrightarrow>
      f_abr (add_format stream_url f protocol is_preview) = Some (AbrInt 256)
      \<and> f_quality (add_format stream_url f protocol is_preview) = Some 5
      \<and> f_format_note (add_format stream_url f protocol is_preview) = Some ''Premium'')
   \<and> (extract_info_dict e info secret_token extract_flat s = (Inr r, s') \<longrightarrow>
        r_formats r = Some formats \<longrightarrow>
        (\<forall>d\<in>set formats. f_protocol d \<noteq> None \<longrightarrow> f_ext d = Some ''aac'' \<longrightarrow>
           f_abr d = Some (AbrInt 256) \<and> f_quality d = Some 5 \<and> f_format_note d = Some ''Premium''))"
  using add_format_aac_fields [of stream_url f protocol is_preview]
    extract_premium [of e info secret_token extract_flat s r s' formats]
  by (auto simp: list_all_iff premium_ok_def)

text \<open>Here the stream URL carries the tag \<^verbatim>\<open>.128.\<close>; the bitrate is 256 all the same,
  in \<^verbatim>\<open>add_format\<close> and in the descriptor an extraction returns.\<close>

theorem add_format_aac_witness:
  "search_abr_ext tagged_stream_url = Some (''128'', ''mp3'')
   \<and> f_ext (add_format tagged_stream_url (new_fmt tagged_stream_url (Some ''aac'')) (Some ''hls'') False)
       = Some ''aac''
   \<and> f_abr (add_format tagged_stream_url (new_fmt tagged_stream_url (Some ''aac'')) (Some ''hls'') False)
       = Some (AbrInt 256)
   \<and> f_quality (add_format tagged_stream_url (new_fmt tagged_stream_url (Some ''aac'')) (Some ''hls'') False)
       = Some 5
   \<and> f_format_note (add_format tagged_stream_url (new_fmt tagged_stream_url (Some ''aac'')) (Some ''hls'') False)
       = Some ''Premium''
   \<and> fst (extract_info_dict track_env aac_info None False stale_state)
       = Inr \<lparr>r_id = ''7'', r_formats = Some [hls_aac_fmt]\<rparr>
   \<and> f_abr hls_aac_fmt = Some (AbrInt 256) \<and> f_quality hls_aac_fmt = Some 5
   \<and> f_format_note hls_aac_fmt = Some ''Premium''"
proof -
  have s: "search_abr_ext tagged_stream_url = Some (''128'', ''mp3'')"
    by code_simp
  have h: "f_ext (add_format tagged_stream_url (new_fmt tagged_stream_url (Some ''aac'')) (Some ''hls'') False)
           = Some ''aac''"
    by code_simp
  have x: "extract_info_dict track_env aac_info None False stale_state
       = (Inr \<lparr>r_id = ''7'', r_formats = Some [hls_aac_fmt]\<rparr>,
          stale_state\<lparr>requests :=
            [GetJson (JStr ''https://api-v2.soundcloud.com/media/7/a/stream/hls'')
               [(''client_id'', JStr ''stale'')]]\<rparr>)"
    by code_simp
  have p: "f_protocol hls_aac_fmt \<noteq> None" "f_ext hls_aac_fmt = Some ''aac''"
    by (simp_all add: hls_aac_fmt_def)
  note t = add_format_aac [of tagged_stream_url "new_fmt tagged_stream_url (Some ''aac'')" "Some ''hls''" False
      track_env aac_info None False stale_state "\<lparr>r_id = ''7'', r_formats = Some [hls_aac_fmt]\<rparr>" _
      "[hls_aac_fmt]"]
  from t h x p s show ?thesis by simp
qed

section \<open>Properties of the credential store\<close>

lemma dict_set_twice: "dict_set k v (dict_set k w d) = dict_set k v d"
  by (induction d) auto

lemma search_client_id_shape:
  "search_client_id s = Some cid \<Longrightarrow> length cid = 32 \<and> list_all is_alnum cid"
proof (induction s)
  case Nil
  then show ?case by simp
next
  case (Cons c cs)
  show ?case
  proof (cases "match_client_id_at (c # cs)")
    case None
    with Cons show ?thesis by simp
  next
    case (Some m)
    with Cons.prems have "m = cid" by simp
    with Some show ?thesis
      by (auto simp: match_client_id_at_def split: if_splits list.splits)
  qed
qed

lemma json_requests_simps [simp]:
  "json_requests [] = []"
  "json_requests (r # rs) = (if is_json_request r then r # json_requests rs else json_requests rs)"
  "json_requests (xs @ ys) = json_requests xs @ json_requests ys"
  by (simp_all add: json_requests_def)

lemma issue_fields [simp]:
  "CLIENT_ID (issue r s) = CLIENT_ID s" "cache (issue r s) = cache s" "warnings (issue r s) = warnings s"
  "requests (issue r s) = requests s @ [r]"
  by (simp_all add: issue_def)

lemma store_fields [simp]:
  "CLIENT_ID (store_client_id v s) = CLIENT_ID s" "cache (store_client_id v s) = v"
  "warnings (store_client_id v s) = warnings s" "requests (store_client_id v s) = requests s"
  by (simp_all add: store_client_id_def)

lemma report_fields [simp]:
  "CLIENT_ID (report_warning m s) = CLIENT_ID s" "cache (report_warning m s) = cache s"
  "requests (report_warning m s) = requests s"
  by (simp_all add: report_warning_def)


lemma scan_scripts_finds:
  "scan_scripts e srcs s = (Inr u, s') \<Longrightarrow>
     length (CLIENT_ID s') = 32 \<and> list_all is_alnum (CLIENT_ID s') \<and> cache s' = Some (CLIENT_ID s')
     \<and> json_requests (requests s') = json_requests (requests s)
     \<and> (\<exists>src lg script. src \<in> set srcs \<and> page_reply e lg src = Inr script
            \<and> search_client_id script = Some (CLIENT_ID s'))"
proof (induction srcs arbitrary: s)
  case Nil
  then show ?case by simp
next
  case (Cons src srcs)
  from Cons.prems consider
      (later) s1 where "s1 = issue (GetPage src) s \<or> (\<exists>m. s1 = report_warning m (issue (GetPage src) s))"
        "scan_scripts e srcs s1 = (Inr u, s')"
    | (here) script cid where "page_reply e (requests s) src = Inr script"
        "search_client_id script = Some cid"
        "s' = store_client_id (Some cid) ((issue (GetPage src) s)\<lparr>CLIENT_ID := cid\<rparr>)"
    by (auto split: sum.splits if_splits option.splits)
  then show ?case
  proof cases
    case later
    from Cons.IH [OF later(2)] later(1) show ?thesis by auto
  next
    case here
    from search_client_id_shape [OF here(2)] here show ?thesis
      by auto
  qed
qed


lemma update_client_id_finds:
  assumes "update_client_id e s = (Inr u, s')"
  shows "length (CLIENT_ID s') = 32 \<and> list_all is_alnum (CLIENT_ID s') \<and> cache s' = Some (CLIENT_ID s')
     \<and> json_requests (requests s') = json_requests (requests s)
     \<and> (\<exists>webpage src lg script. page_reply e (requests s) ''https://soundcloud.com/'' = Inr webpage
            \<and> src \<in> set (findall_script_src 0 webpage) \<and> page_reply e lg src = Inr script
            \<and> search_client_id script = Some (CLIENT_ID s'))"
proof (cases "page_reply e (requests s) ''https://soundcloud.com/''")
  case (Inl x)
  with assms show ?thesis by (auto simp: update_client_id_def)
next
  case (Inr webpage)
  with assms have "scan_scripts e (rev (findall_script_src 0 webpage))
      (issue (GetPage ''https://soundcloud.com/'') s) = (Inr u, s')"
    by (simp add: update_client_id_def)
  from scan_scripts_finds [OF this] Inr show ?thesis by auto
qed

text \<open>A script that cannot be fetched is reported as a warning and skipped; the
  identifier is taken from the next one.\<close>

lemma update_client_id_warns:
  "update_client_id missing_script_env stale_state
     = (Inr (),
        \<lparr>CLIENT_ID = fresh_id, cache = Some fresh_id,
         requests = [GetPage ''https://soundcloud.com/'',
                     GetPage ''https://a-v2.sndcdn.com/assets/gone.js'',
                     GetPage ''https://a-v2.sndcdn.com/assets/app.js''],
         warnings = [''HTTP Error 404: Not Found'']\<rparr>)"
  by code_simp





text \<open>
  Claim C9. When the first attempt and the retry are both rejected with 401 or 403 and
  both refreshes find an identifier, \<^verbatim>\<open>_download_json\<close> returns \<^verbatim>\<open>None\<close>: it raises
  nothing, with \<^verbatim>\<open>fatal=False\<close> as without, and has issued exactly the two JSON requests.
  The state it leaves is the one the second refresh left: the two rejections themselves are
  not reported, and a warning is added only by a refresh, for a script it could not fetch.
\<close>

theorem download_json_rejected_twice:
  assumes "json_reply e (requests s) url (dict_set ''client_id'' (JStr (CLIENT_ID s)) query) = Inl (msg1, c1)"
      and "auth_rejected c1"
      and "update_client_id e (store_client_id None
             (issue (GetJson url (dict_set ''client_id'' (JStr (CLIENT_ID s)) query)) s)) = (Inr u2, s2)"
      and "json_reply e (requests s2) url (dict_set ''client_id'' (JStr (CLIENT_ID s2)) query) = Inl (msg2, c2)"
      and "auth_rejected c2"
      and "update_client_id e (store_client_id None
             (issue (GetJson url (dict_set ''client_id'' (JStr (CLIENT_ID s2)) query)) s2)) = (Inr u4, s4)"
  shows "download_json e url query non_fatal s = (Inr JNull, s4)
     \<and> json_requests (requests s4)
         = json_requests (requests s)
           @ [GetJson url (dict_set ''client_id'' (JStr (CLIENT_ID s)) query),
              GetJson url (dict_set ''client_id'' (JStr (CLIENT_ID s2)) query)]"
proof -
  have d: "download_json e url query non_fatal s = (Inr JNull, s4)"
    using assms by (simp add: download_json_def numeral_2_eq_2 Let_def dict_set_twice)
  from update_client_id_finds [OF assms(3)] update_client_id_finds [OF assms(6)]
  have "json_requests (requests s4)
         = json_requests (requests s)
           @ [GetJson url (dict_set ''client_id'' (JStr (CLIENT_ID s)) query),
              GetJson url (dict_set ''client_id'' (JStr (CLIENT_ID s2)) query)]"
    by simp
  with d show ?thesis by simp
qed

text \<open>On a transport that rejects every JSON request the result is \<^verbatim>\<open>None\<close>, with
  \<^verbatim>\<open>fatal=False\<close> as without.\<close>

theorem download_json_rejected_twice_witness:
  "download_json rejecting_env track_url [] False stale_state
     = (Inr JNull,
        \<lparr>CLIENT_ID = fresh_id, cache = Some fresh_id,
         requests = [GetJson track_url [(''client_id'', JStr ''stale'')],
                     GetPage ''https://soundcloud.com/'',
                     GetPage ''https://a-v2.sndcdn.com/assets/app.js'',
                     GetJson track_url [(''client_id'', JStr fresh_id)],
                     GetPage ''https://soundcloud.com/'',
                     GetPage ''https://a-v2.sndcdn.com/assets/app.js''],
         warnings = []\<rparr>)
   \<and> download_json rejecting_env track_url [] True stale_state
     = download_json rejecting_env track_url [] False stale_state"
proof -
  let ?s2 = "\<lparr>CLIENT_ID = fresh_id, cache = Some fresh_id,
         requests = [GetJson track_url [(''client_id'', JStr ''stale'')],
                     GetPage ''https://soundcloud.com/'',
                     GetPage ''https://a-v2.sndcdn.com/assets/app.js''],
         warnings = []\<rparr>"
  let ?s4 = "\<lparr>CLIENT_ID = fresh_id, cache = Some fresh_id,
         requests = [GetJson track_url [(''client_id'', JStr ''stale'')],
                     GetPage ''https://soundcloud.com/'',
                     GetPage ''https://a-v2.sndcdn.com/assets/app.js'',
                     GetJson track_url [(''client_id'', JStr fresh_id)],
                     GetPage ''https://soundcloud.com/'',
                     GetPage ''https://a-v2.sndcdn.com/assets/app.js''],
         warnings = []\<rparr>"
  have r1: "json_reply rejecting_env (requests stale_state) track_url
      (dict_set ''client_id'' (JStr (CLIENT_ID stale_state)) []) = Inl (fst http_401, snd http_401)"
    by code_simp
  have a: "auth_rejected (snd http_401)" by code_simp
  have u2: "update_client_id rejecting_env (store_client_id None
             (issue (GetJson track_url (dict_set ''client_id'' (JStr (CLIENT_ID stale_state)) [])) stale_state))
            = (Inr (), ?s2)" by code_simp
  have r2: "json_reply rejecting_env (requests ?s2) track_url
      (dict_set ''client_id'' (JStr (CLIENT_ID ?s2)) []) = Inl (fst http_401, snd http_401)"
    by code_simp
  have u4: "update_client_id rejecting_env (store_client_id None
             (issue (GetJson track_url (dict_set ''client_id'' (JStr (CLIENT_ID ?s2)) [])) ?s2))
            = (Inr (), ?s4)" by code_simp
  from download_json_rejected_twice [OF r1 a u2 r2 a u4]
  show ?thesis by simp
qed

section \<open>Properties of the page fetch\<close>







section \<open>Properties of the paginated collector\<close>

lemma download_json_answered:
  assumes "json_reply e (requests s) url (dict_set ''client_id'' (JStr (CLIENT_ID s)) query) = Inr j"
  shows "download_json e url query non_fatal s
           = (Inr j, issue (GetJson url (dict_set ''client_id'' (JStr (CLIENT_ID s)) query)) s)"
  using assms by (simp add: download_json_def numeral_2_eq_2 Let_def)

lemma fetch_page_answered:
  assumes "json_reply e (requests s) url (dict_set ''client_id'' (JStr (CLIENT_ID s)) query) = Inr j"
  shows "fetch_page n e url query s
           = (Inr j, issue (GetJson url (dict_set ''client_id'' (JStr (CLIENT_ID s)) query)) s)"
  using download_json_answered [OF assms, of False] by (cases n) simp_all

lemma entries_loop_pages:
  assumes "cursor_ends (p # ps)"
      and "\<forall>p'\<in>set (p # ps). snd (page_entries e p') = None"
      and "length (p # ps) \<le> fuel"
      and "\<forall>lg. json_reply e lg u (dict_set ''client_id'' (JStr (CLIENT_ID s)) q) = Inr p"
      and "\<forall>lg i. Suc i < length (p # ps) \<longrightarrow>
             json_reply e lg (next_href ((p # ps) ! i))
               (dict_set ''client_id'' (JStr (CLIENT_ID s)) (dict_pop ''offset'' q)) = Inr ((p # ps) ! Suc i)"
      and "dict_pop ''offset'' (dict_pop ''offset'' q) = dict_pop ''offset'' q"
  shows "entries_loop fuel e u q s
     = Some ((concat (map (\<lambda>p'. fst (page_entries e p')) (p # ps)), None),
             s\<lparr>requests := requests s
                  @ GetJson u (dict_set ''client_id'' (JStr (CLIENT_ID s)) q)
                  # map (\<lambda>p'. GetJson (next_href p')
                            (dict_set ''client_id'' (JStr (CLIENT_ID s)) (dict_pop ''offset'' q)))
                        (butlast (p # ps))\<rparr>)"
  using assms
proof (induction ps arbitrary: p u q s fuel)
  case Nil
  then obtain f where f: "fuel = Suc f" by (cases fuel) simp_all
  from Nil.prems have fp: "fetch_page (max_attempts e - 1) e u q s
      = (Inr p, issue (GetJson u (dict_set ''client_id'' (JStr (CLIENT_ID s)) q)) s)"
    by (intro fetch_page_answered) simp
  from Nil.prems obtain ys where ys: "page_entries e p = (ys, None)"
    by (cases "page_entries e p") auto
  from Nil.prems have nt: "\<not> truthy (obj_get p ''next_href'')" by (simp add: next_href_def)
  show ?case unfolding f using fp ys nt by (simp add: issue_def)
next
  case (Cons p' ps)
  then obtain f where f: "fuel = Suc f" by (cases fuel) simp_all
  let ?s1 = "issue (GetJson u (dict_set ''client_id'' (JStr (CLIENT_ID s)) q)) s"
  from Cons.prems have fp: "fetch_page (max_attempts e - 1) e u q s = (Inr p, ?s1)"
    by (intro fetch_page_answered) simp
  from Cons.prems obtain ys where ys: "page_entries e p = (ys, None)"
    by (cases "page_entries e p") auto
  from Cons.prems have t: "truthy (obj_get p ''next_href'')" by (simp add: next_href_def)
  have c: "CLIENT_ID ?s1 = CLIENT_ID s" by (simp add: issue_def)
  have a1: "cursor_ends (p' # ps)" using Cons.prems by simp
  have a2: "\<forall>x\<in>set (p' # ps). snd (page_entries e x) = None" using Cons.prems by simp
  have a3: "length (p' # ps) \<le> f" using Cons.prems f by simp
  have a4: "\<forall>lg. json_reply e lg (obj_get p ''next_href'')
             (dict_set ''client_id'' (JStr (CLIENT_ID ?s1)) (dict_pop ''offset'' q)) = Inr p'"
    using Cons.prems(5) [rule_format, of 0] unfolding c by (simp add: next_href_def)
  have a5: "\<forall>lg i. Suc i < length (p' # ps) \<longrightarrow>
             json_reply e lg (next_href ((p' # ps) ! i))
               (dict_set ''client_id'' (JStr (CLIENT_ID ?s1)) (dict_pop ''offset'' (dict_pop ''offset'' q)))
             = Inr ((p' # ps) ! Suc i)"
  proof (intro allI impI)
    fix lg i assume "Suc i < length (p' # ps)"
    then have "Suc (Suc i) < length (p # p' # ps)" by simp
    from Cons.prems(5) [rule_format, OF this] show "json_reply e lg (next_href ((p' # ps) ! i))
               (dict_set ''client_id'' (JStr (CLIENT_ID ?s1)) (dict_pop ''offset'' (dict_pop ''offset'' q)))
             = Inr ((p' # ps) ! Suc i)"
      unfolding c Cons.prems(6) by simp
  qed
  have a6: "dict_pop ''offset'' (dict_pop ''offset'' (dict_pop ''offset'' q))
              = dict_pop ''offset'' (dict_pop ''offset'' q)"
    using Cons.prems(6) by simp
  note ih = Cons.IH [OF a1 a2 a3 a4 a5 a6]
  show ?case unfolding f using fp ys t
    by (simp add: ih c Cons.prems(6)) (simp add: issue_def next_href_def)
qed

text \<open>
  Claim C5. Let a transport serve a sequence of pages: the first at the collection URL
  with the query \<^verbatim>\<open>limit=200, linked_partitioning=1, offset=0\<close> (and the client id), each
  later one at the \<^verbatim>\<open>next_href\<close> of the page before it with the same query without the
  offset. If every page but the last has a \<^verbatim>\<open>next_href\<close> and the last has none (missing,
  \<^verbatim>\<open>null\<close> or empty), the collector, given at least as many rounds as there are pages,
  comes to an end without an error, yields the entries of the pages in page order, and
  has issued exactly the expected requests: one per page, each continuation URL taken as
  it was returned.
\<close>

theorem entries_follow_cursor:
  assumes "pages \<noteq> []" and "cursor_ends pages"
      and "\<forall>page\<in>set pages. snd (page_entries e page) = None"
      and "length pages \<le> fuel"
      and "\<forall>lg. json_reply e lg (JStr url)
             [(''limit'', JInt 200), (''linked_partitioning'', JStr ''1''), (''offset'', JInt 0),
              (''client_id'', JStr (CLIENT_ID s))] = Inr (hd pages)"
      and "\<forall>lg i. Suc i < length pages \<longrightarrow>
             json_reply e lg (next_href (pages ! i))
               [(''limit'', JInt 200), (''linked_partitioning'', JStr ''1''),
                (''client_id'', JStr (CLIENT_ID s))] = Inr (pages ! Suc i)"
  shows "entries fuel e url s
     = Some ((concat (map (\<lambda>page. fst (page_entries e page)) pages), None),
             s\<lparr>requests := requests s @ expected_page_requests url (CLIENT_ID s) pages\<rparr>)"
proof -
  from assms(1) obtain p ps where ps: "pages = p # ps" by (cases pages) simp_all
  show ?thesis
    unfolding entries_def ps expected_page_requests_def
    using entries_loop_pages [where p = p and ps = ps and e = e and fuel = fuel and u = "JStr url"
            and q = "[(''limit'', JInt 200), (''linked_partitioning'', JStr ''1''), (''offset'', JInt 0)]"
            and s = s]
          assms unfolding ps by simp
qed

text \<open>Three pages of 2, 2 and 1 items, the third with \<^verbatim>\<open>next_href = null\<close>: five entries,
  three requests.\<close>

theorem entries_follow_cursor_witness:
  "map next_href [page1, page2, page3]
     = [JStr ''https://api-v2.soundcloud.com/users/1/tracks?offset=2'',
        JStr ''https://api-v2.soundcloud.com/users/1/tracks?offset=4'', JNull]
   \<and> entries 3 paged_env ''https://api-v2.soundcloud.com/users/1/tracks'' stale_state
     = Some ((map (\<lambda>name. Some \<lparr>e_url = ''https://soundcloud.com/u/'' @ name, e_ie_key = Some ''Soundcloud'',
                                   e_id = Some name, e_title = JStr name\<rparr>)
                [''a'', ''b'', ''c'', ''d'', ''e''], None),
             stale_state\<lparr>requests :=
               [GetJson (JStr ''https://api-v2.soundcloud.com/users/1/tracks'')
                  [(''limit'', JInt 200), (''linked_partitioning'', JStr ''1''), (''offset'', JInt 0),
                   (''client_id'', JStr ''stale'')],
                GetJson (JStr ''https://api-v2.soundcloud.com/users/1/tracks?offset=2'')
                  [(''limit'', JInt 200), (''linked_partitioning'', JStr ''1''),
                   (''client_id'', JStr ''stale'')],
                GetJson (JStr ''https://api-v2.soundcloud.com/users/1/tracks?offset=4'')
                  [(''limit'', JInt 200), (''linked_partitioning'', JStr ''1''),
                   (''client_id'', JStr ''stale'')]]\<rparr>)"
proof -
  let ?pages = "[page1, page2, page3]"
  have n: "map next_href ?pages
     = [JStr ''https://api-v2.soundcloud.com/users/1/tracks?offset=2'',
        JStr ''https://api-v2.soundcloud.com/users/1/tracks?offset=4'', JNull]"
    by code_simp
  have c: "cursor_ends ?pages" by code_simp
  have e1: "page_entries paged_env page1
     = (map (\<lambda>name. Some \<lparr>e_url = ''https://soundcloud.com/u/'' @ name, e_ie_key = Some ''Soundcloud'',
                            e_id = Some name, e_title = JStr name\<rparr>) [''a'', ''b''], None)"
    by code_simp
  have e2: "page_entries paged_env page2
     = (map (\<lambda>name. Some \<lparr>e_url = ''https://soundcloud.com/u/'' @ name, e_ie_key = Some ''Soundcloud'',
                            e_id = Some name, e_title = JStr name\<rparr>) [''c'', ''d''], None)"
    by code_simp
  have e3: "page_entries paged_env page3
     = (map (\<lambda>name. Some \<lparr>e_url = ''https://soundcloud.com/u/'' @ name, e_ie_key = Some ''Soundcloud'',
                            e_id = Some name, e_title = JStr name\<rparr>) [''e''], None)"
    by code_simp
  have w: "\<forall>page\<in>set ?pages. snd (page_entries paged_env page) = None"
    by (simp add: e1 e2 e3)
  have r0: "\<forall>lg. json_reply paged_env lg (JStr ''https://api-v2.soundcloud.com/users/1/tracks'')
             [(''limit'', JInt 200), (''linked_partitioning'', JStr ''1''), (''offset'', JInt 0),
              (''client_id'', JStr (CLIENT_ID stale_state))] = Inr (hd ?pages)"
    by (simp add: paged_env_def rejecting_env_def)
  have r: "\<forall>lg i. Suc i < length ?pages \<longrightarrow>
             json_reply paged_env lg (next_href (?pages ! i))
               [(''limit'', JInt 200), (''linked_partitioning'', JStr ''1''),
                (''client_id'', JStr (CLIENT_ID stale_state))] = Inr (?pages ! Suc i)"
  proof (intro allI impI)
    fix lg i assume "Suc i < length ?pages"
    then have "i = 0 \<or> i = 1" by auto
    then show "json_reply paged_env lg (next_href (?pages ! i))
               [(''limit'', JInt 200), (''linked_partitioning'', JStr ''1''),
                (''client_id'', JStr (CLIENT_ID stale_state))] = Inr (?pages ! Suc i)"
      by (auto simp: paged_env_def rejecting_env_def next_href_def page1_def page2_def)
  qed
  have x: "expected_page_requests ''https://api-v2.soundcloud.com/users/1/tracks'' (CLIENT_ID stale_state) ?pages
     = [GetJson (JStr ''https://api-v2.soundcloud.com/users/1/tracks'')
                  [(''limit'', JInt 200), (''linked_partitioning'', JStr ''1''), (''offset'', JInt 0),
                   (''client_id'', JStr ''stale'')],
                GetJson (JStr ''https://api-v2.soundcloud.com/users/1/tracks?offset=2'')
                  [(''limit'', JInt 200), (''linked_partitioning'', JStr ''1''),
                   (''client_id'', JStr ''stale'')],
                GetJson (JStr ''https://api-v2.soundcloud.com/users/1/tracks?offset=4'')
                  [(''limit'', JInt 200), (''linked_partitioning'', JStr ''1''),
                   (''client_id'', JStr ''stale'')]]"
    by code_simp
  have s0: "requests stale_state = []" by (simp add: stale_state_def)
  have "entries 3 paged_env ''https://api-v2.soundcloud.com/users/1/tracks'' stale_state
     = Some ((concat (map (\<lambda>page. fst (page_entries paged_env page)) ?pages), None),
             stale_state\<lparr>requests := requests stale_state
               @ expected_page_requests ''https://api-v2.soundcloud.com/users/1/tracks''
                   (CLIENT_ID stale_state) ?pages\<rparr>)"
    using c w r0 r by (intro entries_follow_cursor) simp_all
  then show ?thesis unfolding x s0 using n by (simp add: e1 e2 e3)
qed

section \<open>Properties of the error list of a resolve payload\<close>

lemma contains_join:
  "m \<in> set msgs \<Longrightarrow> contains m (join d msgs)"
proof (induction d msgs rule: join.induct)
  case (1 delim)
  then show ?case by simp
next
  case (2 delim x)
  then show ?case by (simp add: contains_def)
next
  case (3 delim x y ys)
  show ?case
  proof (cases "m = x")
    case True
    then show ?thesis by (simp add: contains_def)
  next
    case False
    with 3 have "contains m (join delim (y # ys))" by simp
    then obtain ps ss where "join delim (y # ys) = ps @ m @ ss"
      by (auto simp: contains_def sublist_def)
    then have "x @ delim @ join delim (y # ys) = (x @ delim @ ps) @ m @ ss" by simp
    then have "sublist m (x @ delim @ join delim (y # ys))"
      unfolding sublist_def by blast
    then show ?thesis by (simp add: contains_def)
  qed
qed

lemma error_messages_map:
  "error_messages e errs = Inr msgs \<Longrightarrow>
     msgs = map (\<lambda>err. compat_str e (obj_get err ''error_message'')) errs"
proof (induction errs arbitrary: msgs)
  case Nil
  then show ?case by simp
next
  case (Cons err errs)
  then show ?case
    by (cases err) (auto simp: subscript_def split: sum.splits option.splits)
qed

text \<open>
  Claim C7, amended. In the set extractor and in the related-tracks extractor, a resolve
  payload whose \<^verbatim>\<open>errors\<close> entry is a list of objects that each carry an
  \<^verbatim>\<open>error_message\<close> makes the operation fail with an \<^verbatim>\<open>ExtractorError\<close>; its message is
  a fixed introduction followed by all the messages, in order, joined by commas, so each
  message is contained in it. The set extractor does so for every such list, the
  related-tracks extractor for every such list that is not empty.
\<close>

theorem resolve_error_list:
  assumes "subscript info ''errors'' = Inr (JList errs)"
      and "error_messages e errs = Inr msgs"
  shows "(download_json e (JStr (resolv_url (BASE_URL @ uploader @ ''/sets/'' @ slug_title
               @ (if truthy_str token then ''/'' @ the token else [])))) [] False s = (Inr info, s1) \<longrightarrow>
            set_real_extract e uploader slug_title token s
              = (Inl (ExtractorError (''unable to download video webpage: '' @ join '','' msgs) None), s1))
       \<and> (download_json e (JStr (resolv_url (BASE_URL @ slug))) [] False s = (Inr info, s1) \<longrightarrow>
            errs \<noteq> [] \<longrightarrow>
            related_real_extract e slug s
              = (Inl (ExtractorError (''soundcloud:related said: '' @ join '','' msgs) None), s1))
       \<and> msgs = map (\<lambda>err. compat_str e (obj_get err ''error_message'')) errs
       \<and> (\<forall>m\<in>set msgs. contains m (join '','' msgs))"
proof -
  from assms(1) obtain kvs where info: "info = JObj kvs" and k: "map_of kvs ''errors'' = Some (JList errs)"
    by (cases info) (auto simp: subscript_def split: option.splits)
  from k have "''errors'' \<in> fst ` set kvs"
    by (metis domI dom_map_of_conv_image_fst)
  then have i: "py_in ''errors'' info = Inr True"
    unfolding info py_in_def by simp
  have r: "raise_errors e intro (JList errs) = ExtractorError (intro @ join '','' msgs) None" for intro
    by (simp add: raise_errors_def py_iter_def assms(2))
  have A: "download_json e (JStr (resolv_url (BASE_URL @ uploader @ ''/sets/'' @ slug_title
               @ (if truthy_str token then ''/'' @ the token else [])))) [] False s = (Inr info, s1) \<longrightarrow>
            set_real_extract e uploader slug_title token s
              = (Inl (ExtractorError (''unable to download video webpage: '' @ join '','' msgs) None), s1)"
    by (simp add: set_real_extract_def Let_def i assms(1) r)
  have B: "download_json e (JStr (resolv_url (BASE_URL @ slug))) [] False s = (Inr info, s1) \<longrightarrow>
            errs \<noteq> [] \<longrightarrow>
            related_real_extract e slug s
              = (Inl (ExtractorError (''soundcloud:related said: '' @ join '','' msgs) None), s1)"
    using k by (simp add: related_real_extract_def info r)
  from A B error_messages_map [OF assms(2)] contains_join show ?thesis by blast
qed

text \<open>
  Claim C7, as stated, fails. The resolve call of the track extractor does not look for
  an error list: on the payload \<^verbatim>\<open>{"errors": [{"error_message": "not found"}]}\<close> it ends
  with \<^verbatim>\<open>KeyError: 'id'\<close>, raised by \<^verbatim>\<open>_extract_info_dict\<close>. And the related-tracks
  extractor tests the truth value of the list: a payload with an empty error list is
  handed on without an error.
\<close>

theorem resolve_error_list_counterexample:
  "real_extract not_found_env (Permalink ''artist'' ''song'' None) stale_state
     = (Inl (KeyError ''id''),
        stale_state\<lparr>requests :=
          [GetJson (JStr (resolv_url ''https://soundcloud.com/artist/song''))
             [(''client_id'', JStr ''stale'')]]\<rparr>)
   \<and> related_real_extract no_errors_env ''artist/song'' stale_state
     = (Inr no_errors_payload,
        stale_state\<lparr>requests :=
          [GetJson (JStr (resolv_url ''https://soundcloud.com/artist/song''))
             [(''client_id'', JStr ''stale'')]]\<rparr>)"
  by code_simp

text \<open>The payload \<^verbatim>\<open>{"errors": [{"error_message": "not found"}]}\<close> in both extractors.\<close>

theorem resolve_error_list_witness:
  "set_real_extract not_found_env ''artist'' ''album'' None stale_state
     = (Inl (ExtractorError ''unable to download video webpage: not found'' None),
        stale_state\<lparr>requests :=
          [GetJson (JStr (resolv_url ''https://soundcloud.com/artist/sets/album''))
             [(''client_id'', JStr ''stale'')]]\<rparr>)
   \<and> related_real_extract not_found_env ''artist/song'' stale_state
     = (Inl (ExtractorError ''soundcloud:related said: not found'' None),
        stale_state\<lparr>requests :=
          [GetJson (JStr (resolv_url ''https://soundcloud.com/artist/song''))
             [(''client_id'', JStr ''stale'')]]\<rparr>)
   \<and> contains ''not found'' (join '','' [''not found''])"
proof -
  let ?errs = "[JObj [(''error_message'', JStr ''not found'')]]"
  have a: "subscript not_found_payload ''errors'' = Inr (JList ?errs)" by code_simp
  have b: "error_messages not_found_env ?errs = Inr [''not found'']" by code_simp
  have d1: "download_json not_found_env (JStr (resolv_url (BASE_URL @ ''artist'' @ ''/sets/'' @ ''album''
               @ (if truthy_str None then ''/'' @ the None else [])))) [] False stale_state
     = (Inr not_found_payload,
        stale_state\<lparr>requests :=
          [GetJson (JStr (resolv_url ''https://soundcloud.com/artist/sets/album''))
             [(''client_id'', JStr ''stale'')]]\<rparr>)"
    by code_simp
  have d2: "download_json not_found_env (JStr (resolv_url (BASE_URL @ ''artist/song''))) [] False stale_state
     = (Inr not_found_payload,
        stale_state\<lparr>requests :=
          [GetJson (JStr (resolv_url ''https://soundcloud.com/artist/song''))
             [(''client_id'', JStr ''stale'')]]\<rparr>)"
    by code_simp
  from resolve_error_list [OF a b, where uploader = "''artist''" and slug_title = "''album''"
      and token = None and slug = "''artist/song''" and s = stale_state] d1 d2
  show ?thesis by simp
qed

section \<open>Properties of the collected descriptors\<close>

lemma add_format_url [simp]: "f_url (add_format stream_url f protocol is_preview) = f_url f"
  by (simp add: add_format_def Let_def split: option.splits prod.splits)

lemma add_format_protocol [simp]: "f_protocol (add_format stream_url f protocol is_preview) \<noteq> None"
  by (simp add: add_format_def Let_def split: option.splits prod.splits)

lemma transcoding_step_ok:
  assumes "collected_ok acc"
  shows "collected_ok (transcoding_step e query ut acc)"
proof -
  obtain format_url t where ut: "ut = (format_url, t)" by (cases ut)
  obtain format_urls formats s where acc: "acc = (format_urls, formats, s)" by (cases acc)
  obtain stream s1 where fs: "fetch_stream (max_attempts e - Suc 0) e format_url query s = (stream, s1)"
    by (cases "fetch_stream (max_attempts e - Suc 0) e format_url query s")
  show ?thesis
  proof (cases "url_or_none e (obj_get stream ''url'')")
    case None
    with assms show ?thesis
      unfolding ut acc by (simp add: transcoding_step_def Let_def fs invalid_url_def collected_ok_def)
  next
    case (Some u)
    with assms show ?thesis
      unfolding ut acc
      by (auto simp: transcoding_step_def Let_def fs invalid_url_def collected_ok_def new_fmt_def)
  qed
qed

lemma transcodings_loop_ok:
  "collected_ok acc \<Longrightarrow> collected_ok (transcodings_loop e query uts acc)"
  by (induction uts arbitrary: acc) (simp_all add: transcoding_step_ok)

lemma filter_url_one:
  "distinct (map f_url fs) \<Longrightarrow> u \<in> f_url ` set fs \<Longrightarrow> length (filter (\<lambda>f. f_url f = u) fs) = 1"
proof (induction fs)
  case Nil
  then show ?case by simp
next
  case (Cons f fs)
  show ?case
  proof (cases "f_url f = u")
    case True
    with Cons.prems have "filter (\<lambda>f. f_url f = u) fs = []"
      by (force simp: filter_empty_conv image_iff)
    with True show ?thesis by simp
  next
    case False
    with Cons show ?thesis by auto
  qed
qed

lemma transcoding_step_exactly_one:
  assumes "collected_ok (format_urls, formats, s)"
      and "is_requested (formats_arg e) (transcoding_identifier e t format_url)"
      and "fetch_stream (max_attempts e - 1) e format_url query s = (stream, s1)"
      and "url_or_none e (obj_get stream ''url'') = Some u" and "u \<noteq> []"
  shows "length (filter (\<lambda>f. f_url f = u)
           (fst (snd (transcoding_step e query (format_url, t) (format_urls, formats, s))))) = 1"
proof (cases "u \<in> format_urls")
  case True
  with assms have "fst (snd (transcoding_step e query (format_url, t) (format_urls, formats, s))) = formats"
    by (simp add: transcoding_step_def Let_def invalid_url_def)
  with assms(1) True show ?thesis
    by (simp add: collected_ok_def filter_url_one)
next
  case False
  with assms(1) have "filter (\<lambda>f. f_url f = u) formats = []"
    by (auto simp: collected_ok_def filter_empty_conv)
  with assms False show ?thesis
    by (simp add: transcoding_step_def Let_def invalid_url_def new_fmt_def)
qed

lemma original_download_ok:
  "original_download e track_id query s = (Inr (format_urls, formats), s1) \<Longrightarrow>
     collected_ok (format_urls, formats, s1)"
  by (auto simp: original_download_def Let_def collected_ok_def download_fmt_def
      split: prod.splits sum.splits if_splits option.splits)

lemma extract_distinct_urls:
  assumes "extract_info_dict e info secret_token extract_flat s = (Inr r, s')"
      and "r_formats r = Some formats"
  shows "distinct (map f_url formats)
       \<and> (\<forall>f\<in>set formats. f_protocol f \<noteq> None \<longrightarrow> f_url f \<noteq> [])"
proof -
  from assms(1) obtain id_value title where
    i: "subscript info ''id'' = Inr id_value" and t: "subscript info ''title'' = Inr title"
    by (auto simp: extract_info_dict_def split: sum.splits)
  define query where "query = (if truthy_str secret_token
      then dict_set ''secret_token'' (JStr (the secret_token)) [(''client_id'', JStr (CLIENT_ID s))]
      else [(''client_id'', JStr (CLIENT_ID s))])"
  define d where "d = (if \<not> extract_flat \<and> truthy (obj_get info ''downloadable'')
               \<and> truthy (obj_get info ''has_downloads_left'')
            then original_download e (compat_str e id_value) query s
            else (Inr ({}, []), s))"
  from assms(1) obtain format_urls fs s1 where d1: "d = (Inr (format_urls, fs), s1)"
    unfolding extract_info_dict_def i t d_def query_def
    by (auto simp: Let_def split: sum.splits prod.splits)
  have ok1: "collected_ok (format_urls, fs, s1)"
  proof (cases "\<not> extract_flat \<and> truthy (obj_get info ''downloadable'')
               \<and> truthy (obj_get info ''has_downloads_left'')")
    case True
    with d1 show ?thesis unfolding d_def by (auto dest: original_download_ok)
  next
    case False
    with d1 show ?thesis unfolding d_def by (auto simp: collected_ok_def)
  qed
  define l where "l = (if extract_flat then (format_urls, fs, s1)
            else transcodings_loop e query (transcodings_of e info) (format_urls, fs, s1))"
  have ok2: "collected_ok l" unfolding l_def using ok1 by (simp add: transcodings_loop_ok)
  obtain format_urls2 fs2 s2 where l2: "l = (format_urls2, fs2, s2)" by (cases l)
  from assms have "formats = map (\<lambda>f. f\<lparr>f_vcodec := Some ''none''\<rparr>) fs2"
    unfolding extract_info_dict_def i t
    using d1 l2 unfolding d_def l_def query_def
    by (auto simp: Let_def split: if_splits)
  moreover from ok2 have "distinct (map f_url fs2)" "\<forall>f\<in>set fs2. f_protocol f \<noteq> None \<longrightarrow> f_url f \<noteq> []"
    unfolding l2 collected_ok_def by simp_all
  ultimately show ?thesis by (simp add: comp_def)
qed

text \<open>
  Claim C4, amended. The descriptors an extraction returns have pairwise distinct URLs,
  and none that comes from a transcoding has an empty URL. The loop keeps the invariant
  \<open>collected_ok\<close> at every transcoding; and once a requested transcoding has resolved to
  a URL that is not empty, exactly one collected descriptor has that URL, whether the
  URL was new or already taken by an earlier transcoding or by the original download.
  Nothing is said of the uniqueness of \<^verbatim>\<open>format_id\<close>: it does not hold.
\<close>

theorem extract_one_descriptor_per_url:
  "(extract_info_dict e info secret_token extract_flat s = (Inr r, s') \<longrightarrow>
      r_formats r = Some result \<longrightarrow>
      distinct (map f_url result) \<and> (\<forall>f\<in>set result. f_protocol f \<noteq> None \<longrightarrow> f_url f \<noteq> []))
   \<and> (collected_ok acc \<longrightarrow> collected_ok (transcoding_step e query ut acc))
   \<and> (collected_ok (format_urls, formats, s) \<longrightarrow>
        is_requested (formats_arg e) (transcoding_identifier e t format_url) \<longrightarrow>
        fetch_stream (max_attempts e - 1) e format_url query s = (stream, s1) \<longrightarrow>
        url_or_none e (obj_get stream ''url'') = Some u \<longrightarrow> u \<noteq> [] \<longrightarrow>
        length (filter (\<lambda>f. f_url f = u)
           (fst (snd (transcoding_step e query (format_url, t) (format_urls, formats, s))))) = 1)"
  using extract_distinct_urls [of e info secret_token extract_flat s r s' result]
    transcoding_step_ok [of acc e query ut]
    transcoding_step_exactly_one [of format_urls formats s e t format_url query stream s1 u]
  by blast

text \<open>
  Claim C4, as stated, fails in its second half. Two HLS transcodings of the presets
  \<^verbatim>\<open>mp3_0_0\<close> and \<^verbatim>\<open>mp3_1_0\<close> that resolve to two different playable URLs, both tagged
  \<^verbatim>\<open>.128.mp3\<close>, give two descriptors with the same \<^verbatim>\<open>format_id\<close> \<^verbatim>\<open>hls_mp3_128\<close>.
\<close>

theorem format_id_not_unique_counterexample:
  "extract_info_dict track_env twin_info None False stale_state
     = (Inr \<lparr>r_id = ''7'', r_formats = Some [hls_mp3_fmt ''a'', hls_mp3_fmt ''b'']\<rparr>,
        stale_state\<lparr>requests :=
          [GetJson (JStr ''https://api-v2.soundcloud.com/media/7/a/stream/hls'') [(''client_id'', JStr ''stale'')],
           GetJson (JStr ''https://api-v2.soundcloud.com/media/7/b/stream/hls'') [(''client_id'', JStr ''stale'')]]\<rparr>)
   \<and> f_url (hls_mp3_fmt ''a'') \<noteq> f_url (hls_mp3_fmt ''b'')
   \<and> f_format_id (hls_mp3_fmt ''a'') = Some ''hls_mp3_128''
   \<and> f_format_id (hls_mp3_fmt ''b'') = Some ''hls_mp3_128''"
  by code_simp

text \<open>The same two transcodings resolving to one playable URL: one descriptor.\<close>

theorem extract_one_descriptor_per_url_witness:
  "extract_info_dict same_url_env twin_info None False stale_state
     = (Inr \<lparr>r_id = ''7'', r_formats = Some [hls_mp3_fmt ''a'']\<rparr>,
        stale_state\<lparr>requests :=
          [GetJson (JStr ''https://api-v2.soundcloud.com/media/7/a/stream/hls'') [(''client_id'', JStr ''stale'')],
           GetJson (JStr ''https://api-v2.soundcloud.com/media/7/b/stream/hls'') [(''client_id'', JStr ''stale'')]]\<rparr>)
   \<and> distinct (map f_url [hls_mp3_fmt ''a''])
   \<and> f_url (hls_mp3_fmt ''a'') \<noteq> []"
proof -
  have x: "extract_info_dict same_url_env twin_info None False stale_state
     = (Inr \<lparr>r_id = ''7'', r_formats = Some [hls_mp3_fmt ''a'']\<rparr>,
        stale_state\<lparr>requests :=
          [GetJson (JStr ''https://api-v2.soundcloud.com/media/7/a/stream/hls'') [(''client_id'', JStr ''stale'')],
           GetJson (JStr ''https://api-v2.soundcloud.com/media/7/b/stream/hls'') [(''client_id'', JStr ''stale'')]]\<rparr>)"
    by code_simp
  have p: "f_protocol (hls_mp3_fmt ''a'') \<noteq> None" by (simp add: hls_mp3_fmt_def)
  from extract_one_descriptor_per_url [of same_url_env twin_info None False stale_state
      "\<lparr>r_id = ''7'', r_formats = Some [hls_mp3_fmt ''a'']\<rparr>" _ "[hls_mp3_fmt ''a'']"] x p
  show ?thesis by simp
qed

section \<open>Properties of the secret token\<close>

lemma adds_only_refl [simp]: "adds_only P s s"
  by (simp add: adds_only_def)

lemma adds_only_trans: "adds_only P s s1 \<Longrightarrow> adds_only P s1 s2 \<Longrightarrow> adds_only P s s2"
  by (auto simp: adds_only_def)

lemma adds_only_mono: "adds_only P s s' \<Longrightarrow> (\<And>r. P r \<Longrightarrow> Q r) \<Longrightarrow> adds_only Q s s'"
  by (auto simp: adds_only_def list_all_iff)

lemma adds_only_issue: "P r \<Longrightarrow> adds_only P s (issue r s)"
  by (simp add: adds_only_def issue_def)

lemma adds_only_requests_eq: "requests s' = requests s \<Longrightarrow> adds_only P s s'"
  by (simp add: adds_only_def)

lemma scan_scripts_adds: "adds_only is_page_request s (snd (scan_scripts e srcs s))"
proof (induction srcs arbitrary: s)
  case Nil
  then show ?case by simp
next
  case (Cons src srcs)
  have a: "adds_only is_page_request s (issue (GetPage src) s)"
    by (simp add: adds_only_issue)
  have b: "adds_only is_page_request s (snd (scan_scripts e srcs (issue (GetPage src) s)))"
    using adds_only_trans [OF a Cons.IH] .
  have w: "adds_only is_page_request s (report_warning m (issue (GetPage src) s))" for m
    using a by (simp add: adds_only_def)
  have b': "adds_only is_page_request s
              (snd (scan_scripts e srcs (report_warning m (issue (GetPage src) s))))" for m
    using adds_only_trans [OF w Cons.IH] .
  have c: "adds_only is_page_request s
             (store_client_id (Some c) ((issue (GetPage src) s)\<lparr>CLIENT_ID := c\<rparr>))" for c
    by (simp add: adds_only_def issue_def store_client_id_def)
  show ?case using b b' c by (simp split: sum.splits option.splits)
qed

lemma update_client_id_adds: "adds_only is_page_request s (snd (update_client_id e s))"
proof -
  have a: "adds_only is_page_request s (issue (GetPage ''https://soundcloud.com/'') s)"
    by (simp add: adds_only_issue)
  show ?thesis
    using a adds_only_trans [OF a scan_scripts_adds]
    by (simp add: update_client_id_def split: sum.splits)
qed

lemma download_json_loop_adds:
  "adds_only (same_request url query) s (snd (download_json_loop n e url query non_fatal s))"
proof (induction n arbitrary: s query)
  case 0
  then show ?case by simp
next
  case (Suc n)
  let ?q = "dict_set ''client_id'' (JStr (CLIENT_ID s)) query"
  let ?s1 = "issue (GetJson url ?q) s"
  have a: "adds_only (same_request url query) s ?s1"
    by (rule adds_only_issue) (auto simp: same_request_def)
  have w: "adds_only (same_request url query) s (report_warning m ?s1)" for m
    using a by (simp add: adds_only_def report_warning_def)
  have b: "adds_only (same_request url query) s (store_client_id None ?s1)"
    using a by (simp add: adds_only_def store_client_id_def)
  have u: "adds_only (same_request url query) s (snd (update_client_id e (store_client_id None ?s1)))"
    by (rule adds_only_trans [OF b])
       (rule adds_only_mono [OF update_client_id_adds], simp add: same_request_def)
  have sq: "same_request url ?q = same_request url query"
    by (simp add: same_request_def fun_eq_iff dict_set_twice)
  show ?case
  proof (cases "json_reply e (requests s) url ?q")
    case (Inr j)
    then show ?thesis using a by (simp add: Let_def)
  next
    case (Inl x)
    obtain msg c where x: "x = (msg, c)" by (cases x)
    obtain r s2 where r: "update_client_id e (store_client_id None ?s1) = (r, s2)"
      by (cases "update_client_id e (store_client_id None ?s1)")
    from u r have u2: "adds_only (same_request url query) s s2" by simp
    have "adds_only (same_request url query) s2 (snd (download_json_loop n e url ?q non_fatal s2))"
      using Suc.IH [of ?q s2] unfolding sq .
    from adds_only_trans [OF u2 this] u2 a w Inl x r show ?thesis
      by (cases r) (simp_all add: Let_def)
  qed
qed

lemma download_json_adds:
  "adds_only (same_request url query) s (snd (download_json e url query non_fatal s))"
  unfolding download_json_def by (rule download_json_loop_adds)

lemma fetch_stream_adds:
  "adds_only (same_request (JStr format_url) query) s (snd (fetch_stream n e format_url query s))"
proof (induction n arbitrary: s)
  case 0
  obtain r s1 where d: "download_json e (JStr format_url) query False s = (r, s1)"
    by (cases "download_json e (JStr format_url) query False s")
  with download_json_adds [of "JStr format_url" query s e False]
  have a: "adds_only (same_request (JStr format_url) query) s s1" by simp
  then have "adds_only (same_request (JStr format_url) query) s (report_warning m s1)"
    and "adds_only (same_request (JStr format_url) query) s (report_warning_once m s1)" for m
    by (simp_all add: adds_only_def report_warning_def report_warning_once_def)
  with a d show ?case by (auto split: sum.splits)
next
  case (Suc n)
  obtain r s1 where d: "download_json e (JStr format_url) query False s = (r, s1)"
    by (cases "download_json e (JStr format_url) query False s")
  with download_json_adds [of "JStr format_url" query s e False]
  have a: "adds_only (same_request (JStr format_url) query) s s1" by simp
  then have w: "adds_only (same_request (JStr format_url) query) s (report_warning m s1)"
    and o: "adds_only (same_request (JStr format_url) query) s (report_warning_once m s1)" for m
    by (simp_all add: adds_only_def report_warning_def report_warning_once_def)
  from adds_only_trans [OF o Suc.IH] a w d show ?case by (auto split: sum.splits)
qed

lemma download_json_first:
  "adds_only (same_request url query)
     (issue (GetJson url (dict_set ''client_id'' (JStr (CLIENT_ID s)) query)) s)
     (snd (download_json e url query non_fatal s))"
proof -
  let ?q = "dict_set ''client_id'' (JStr (CLIENT_ID s)) query"
  let ?s1 = "issue (GetJson url ?q) s"
  have w: "adds_only (same_request url query) ?s1 (report_warning m ?s1)" for m
    by (simp add: adds_only_def report_warning_def)
  have b: "adds_only (same_request url query) ?s1 (store_client_id None ?s1)"
    by (simp add: adds_only_def store_client_id_def)
  have u: "adds_only (same_request url query) ?s1 (snd (update_client_id e (store_client_id None ?s1)))"
    by (rule adds_only_trans [OF b])
       (rule adds_only_mono [OF update_client_id_adds], simp add: same_request_def)
  have sq: "same_request url ?q = same_request url query"
    by (simp add: same_request_def fun_eq_iff dict_set_twice)
  show ?thesis
  proof (cases "json_reply e (requests s) url ?q")
    case (Inr j)
    then show ?thesis by (simp add: download_json_def numeral_2_eq_2 Let_def)
  next
    case (Inl x)
    obtain msg c where x: "x = (msg, c)" by (cases x)
    obtain r s2 where r: "update_client_id e (store_client_id None ?s1) = (r, s2)"
      by (cases "update_client_id e (store_client_id None ?s1)")
    from u r have u2: "adds_only (same_request url query) ?s1 s2" by simp
    have "adds_only (same_request url query) s2 (snd (download_json_loop 1 e url ?q non_fatal s2))"
      using download_json_loop_adds [of url ?q s2 1 e non_fatal] unfolding sq .
    from adds_only_trans [OF u2 this] u2 w Inl x r show ?thesis
      by (cases r) (simp_all add: download_json_def numeral_2_eq_2 Let_def)
  qed
qed

lemma carries_token_query:
  assumes "map_of query ''secret_token'' = Some (JStr tok)"
  shows "same_request url query r \<Longrightarrow> token_ok e tok r"
proof -
  have "map_of (dict_set ''client_id'' v query) ''secret_token'' = map_of query ''secret_token''" for v
    by (induction query) auto
  with assms show "same_request url query r \<Longrightarrow> token_ok e tok r"
    by (cases r) (auto simp: same_request_def token_ok_def carries_token_def)
qed

lemma transcoding_step_adds:
  assumes "map_of query ''secret_token'' = Some (JStr tok)"
  shows "adds_only (token_ok e tok) (snd (snd acc)) (snd (snd (transcoding_step e query ut acc)))"
proof -
  obtain format_url t where ut: "ut = (format_url, t)" by (cases ut)
  obtain format_urls formats s where acc: "acc = (format_urls, formats, s)" by (cases acc)
  obtain stream s1 where fs: "fetch_stream (max_attempts e - Suc 0) e format_url query s = (stream, s1)"
    by (cases "fetch_stream (max_attempts e - Suc 0) e format_url query s")
  from fetch_stream_adds [of format_url query s "max_attempts e - Suc 0" e] fs
  have "adds_only (same_request (JStr format_url) query) s s1" by simp
  then have "adds_only (token_ok e tok) s s1"
    by (rule adds_only_mono) (rule carries_token_query [OF assms])
  then show ?thesis
    unfolding ut acc by (simp add: transcoding_step_def Let_def fs)
qed

lemma transcodings_loop_adds:
  assumes "map_of query ''secret_token'' = Some (JStr tok)"
  shows "adds_only (token_ok e tok) (snd (snd acc)) (snd (snd (transcodings_loop e query uts acc)))"
proof (induction uts arbitrary: acc)
  case Nil
  then show ?case by simp
next
  case (Cons ut uts)
  from adds_only_trans [OF transcoding_step_adds [OF assms] Cons.IH]
  show ?case by simp
qed

lemma original_download_adds:
  assumes "query = [(''client_id'', JStr c), (''secret_token'', JStr tok)]"
  shows "adds_only (token_ok e tok) s (snd (original_download e track_id query s))"
proof -
  let ?d = "JStr (update_url_query e (API_V2_BASE @ ''tracks/'' @ track_id @ ''/download'') query)"
  obtain r s1 where d: "download_json e ?d [] True s = (r, s1)"
    by (cases "download_json e ?d [] True s")
  have ex: "\<exists>base c'. ?d = JStr (update_url_query e base
                  [(''client_id'', JStr c'), (''secret_token'', JStr tok)])"
    unfolding assms by blast
  have "token_ok e tok x" if "same_request ?d [] x" for x
  proof (cases x)
    case (GetJson u q')
    with that have "u = ?d" by (simp add: same_request_def)
    with GetJson ex show ?thesis
      unfolding token_ok_def carries_token_def by (simp only: request.case) blast
  qed (simp_all add: token_ok_def)
  with download_json_adds [of ?d "[]" s e True] d
  have a: "adds_only (token_ok e tok) s s1" by (auto intro: adds_only_mono)
  have h: "adds_only (token_ok e tok) s1 (issue (Head u) s1)" for u
    by (rule adds_only_issue) (simp add: token_ok_def)
  have w: "adds_only (token_ok e tok) s1 (report_warning m (issue (Head u) s1))" for m u
    using h [of u] by (simp add: adds_only_def)
  from a adds_only_trans [OF a h] adds_only_trans [OF a w] d show ?thesis
    by (auto simp: original_download_def Let_def split: sum.splits option.splits)
qed

lemma original_download_adds':
  "original_download e track_id [(''client_id'', JStr c), (''secret_token'', JStr tok)] s = (r, s1)
     \<Longrightarrow> adds_only (token_ok e tok) s s1"
  using original_download_adds [of _ c tok e s track_id] by simp

lemma transcodings_loop_adds':
  "transcodings_loop e [(''client_id'', JStr c), (''secret_token'', JStr tok)] uts (format_urls, fs, s1)
     = (format_urls2, fs2, s2) \<Longrightarrow> adds_only (token_ok e tok) s1 s2"
  using transcodings_loop_adds [of "[(''client_id'', JStr c), (''secret_token'', JStr tok)]" tok e
      "(format_urls, fs, s1)" uts] by simp

lemma extract_info_dict_adds:
  assumes "tok \<noteq> []"
  shows "adds_only (token_ok e tok) s (snd (extract_info_dict e info (Some tok) extract_flat s))"
  using assms unfolding extract_info_dict_def
  by (auto simp: Let_def split: sum.splits prod.splits if_splits
      dest!: original_download_adds' transcodings_loop_adds' intro: adds_only_trans)

lemma adds_only_after_issue:
  assumes "adds_only P (issue first s) s'"
  shows "\<exists>rest. requests s' = requests s @ first # rest \<and> (\<forall>r\<in>set rest. P r)"
  using assms by (auto simp: adds_only_def issue_def list_all_iff)

text \<open>
  Claim C8. When the locator of a track carries a secret token, the first request of the
  extraction, the info or resolve call, carries it unchanged: as the parameter
  \<^verbatim>\<open>secret_token\<close> for an API locator, at the end of the permalink to resolve otherwise.
  Every JSON request issued after it carries it too: the transcoding fetches (and a
  repeated info call) bind \<^verbatim>\<open>secret_token\<close> to it in their query, the \<^verbatim>\<open>/download\<close> call
  has it merged into its URL by \<^verbatim>\<open>update_url_query\<close>, and a repeated resolve call has
  it in the permalink. The other requests are page requests of a client-id refresh and
  the \<^verbatim>\<open>HEAD\<close> request sent to the redirect URL the platform returned.
\<close>

theorem secret_token_forwarded:
  assumes "locator_token loc = Some tok" and "tok \<noteq> []"
  shows "\<exists>rest. requests (snd (real_extract e loc s))
           = requests s
             @ (case loc of
                  ApiTrack track_id secret_token \<Rightarrow>
                    GetJson (JStr (API_V2_BASE @ ''tracks/'' @ track_id))
                      [(''secret_token'', JStr tok), (''client_id'', JStr (CLIENT_ID s))]
                | Permalink uploader title token \<Rightarrow>
                    GetJson (JStr (resolv_url (BASE_URL @ uploader @ ''/'' @ title @ ''/'' @ tok)))
                      [(''client_id'', JStr (CLIENT_ID s))])
               # rest
         \<and> (\<forall>r\<in>set rest. is_json_request r \<longrightarrow> carries_token e tok r \<or> in_resolve_url tok r)"
proof -
  define url where "url = (case loc of
       ApiTrack track_id secret_token \<Rightarrow> JStr (API_V2_BASE @ ''tracks/'' @ track_id)
     | Permalink uploader title token \<Rightarrow>
         JStr (resolv_url (BASE_URL @ uploader @ ''/'' @ title @ ''/'' @ tok)))"
  define query where "query = (case loc of
       ApiTrack track_id secret_token \<Rightarrow> [(''secret_token'', JStr tok)]
     | Permalink uploader title token \<Rightarrow> [])"
  let ?first = "GetJson url (dict_set ''client_id'' (JStr (CLIENT_ID s)) query)"
  have re: "real_extract e loc s =
      (case download_json e url query False s of
         (Inl (msg, c), s1) \<Rightarrow> (Inl (ExtractorError msg c), s1)
       | (Inr info, s1) \<Rightarrow> extract_info_dict e info (Some tok) False s1)"
    using assms unfolding real_extract_def url_def query_def by (cases loc) simp_all
  have ok: "token_ok e tok r" if "same_request url query r" for r
  proof (cases loc)
    case (ApiTrack track_id secret_token)
    then have "map_of query ''secret_token'' = Some (JStr tok)" by (simp add: query_def)
    from carries_token_query [OF this that] show ?thesis .
  next
    case (Permalink uploader title token)
    then have u: "url = JStr (resolv_url (BASE_URL @ uploader @ ''/'' @ title @ ''/'' @ tok))"
      by (simp add: url_def)
    show ?thesis
    proof (cases r)
      case (GetJson u' q')
      with that have "u' = url" by (simp add: same_request_def)
      with GetJson u have "in_resolve_url tok r"
        unfolding in_resolve_url_def by (simp only: request.case) blast
      then show ?thesis by (simp add: token_ok_def)
    qed (simp_all add: token_ok_def)
  qed
  obtain r s1 where d: "download_json e url query False s = (r, s1)"
    by (cases "download_json e url query False s")
  from download_json_first [of url query s e False] d
  have a: "adds_only (token_ok e tok) (issue ?first s) s1"
    by (auto intro: adds_only_mono ok)
  have "adds_only (token_ok e tok) (issue ?first s) (snd (real_extract e loc s))"
  proof (cases r)
    case (Inl x)
    with a d show ?thesis unfolding re by (cases x) simp
  next
    case (Inr info)
    from adds_only_trans [OF a extract_info_dict_adds [OF assms(2)]] d Inr
    show ?thesis unfolding re by simp
  qed
  from adds_only_after_issue [OF this]
  obtain rest where "requests (snd (real_extract e loc s)) = requests s @ ?first # rest"
    and "\<forall>r\<in>set rest. token_ok e tok r" by blast
  moreover have "?first = (case loc of
                  ApiTrack track_id secret_token \<Rightarrow>
                    GetJson (JStr (API_V2_BASE @ ''tracks/'' @ track_id))
                      [(''secret_token'', JStr tok), (''client_id'', JStr (CLIENT_ID s))]
                | Permalink uploader title token \<Rightarrow>
                    GetJson (JStr (resolv_url (BASE_URL @ uploader @ ''/'' @ title @ ''/'' @ tok)))
                      [(''client_id'', JStr (CLIENT_ID s))])"
    unfolding url_def query_def by (cases loc) simp_all
  ultimately show ?thesis unfolding token_ok_def by metis
qed

text \<open>A private, downloadable track with the token \<^verbatim>\<open>s-x\<close>: the four requests.\<close>

theorem secret_token_forwarded_witness:
  "requests (snd (real_extract track_env (ApiTrack ''7'' (Some ''s-x'')) stale_state))
     = [GetJson (JStr ''https://api-v2.soundcloud.com/tracks/7'')
          [(''secret_token'', JStr ''s-x''), (''client_id'', JStr ''stale'')],
        GetJson (JStr ''https://api-v2.soundcloud.com/tracks/7/download?client_id=stale&secret_token=s-x'')
          [(''client_id'', JStr ''stale'')],
        Head (JStr ''https://cf-media.sndcdn.com/orig.wav''),
        GetJson (JStr ''https://api-v2.soundcloud.com/media/7/a/stream/hls'')
          [(''client_id'', JStr ''stale''), (''secret_token'', JStr ''s-x'')]]
   \<and> (carries_token track_env ''s-x''
         (GetJson (JStr ''https://api-v2.soundcloud.com/tracks/7/download?client_id=stale&secret_token=s-x'')
            [(''client_id'', JStr ''stale'')])
        \<or> in_resolve_url ''s-x''
         (GetJson (JStr ''https://api-v2.soundcloud.com/tracks/7/download?client_id=stale&secret_token=s-x'')
            [(''client_id'', JStr ''stale'')]))
   \<and> (carries_token track_env ''s-x''
         (GetJson (JStr ''https://api-v2.soundcloud.com/media/7/a/stream/hls'')
            [(''client_id'', JStr ''stale''), (''secret_token'', JStr ''s-x'')])
        \<or> in_resolve_url ''s-x''
         (GetJson (JStr ''https://api-v2.soundcloud.com/media/7/a/stream/hls'')
            [(''client_id'', JStr ''stale''), (''secret_token'', JStr ''s-x'')]))"
proof -
  have x: "requests (snd (real_extract track_env (ApiTrack ''7'' (Some ''s-x'')) stale_state))
     = [GetJson (JStr ''https://api-v2.soundcloud.com/tracks/7'')
          [(''secret_token'', JStr ''s-x''), (''client_id'', JStr ''stale'')],
        GetJson (JStr ''https://api-v2.soundcloud.com/tracks/7/download?client_id=stale&secret_token=s-x'')
          [(''client_id'', JStr ''stale'')],
        Head (JStr ''https://cf-media.sndcdn.com/orig.wav''),
        GetJson (JStr ''https://api-v2.soundcloud.com/media/7/a/stream/hls'')
          [(''client_id'', JStr ''stale''), (''secret_token'', JStr ''s-x'')]]"
    by code_simp
  have t: "locator_token (ApiTrack ''7'' (Some ''s-x'')) = Some ''s-x''" "''s-x'' \<noteq> []"
    by simp_all
  from secret_token_forwarded [OF t, of track_env stale_state]
  obtain rest where r: "requests (snd (real_extract track_env (ApiTrack ''7'' (Some ''s-x'')) stale_state))
           = requests stale_state
             @ GetJson (JStr (API_V2_BASE @ ''tracks/'' @ ''7''))
                      [(''secret_token'', JStr ''s-x''), (''client_id'', JStr (CLIENT_ID stale_state))]
               # rest"
    and p: "\<forall>r\<in>set rest. is_json_request r \<longrightarrow> carries_token track_env ''s-x'' r \<or> in_resolve_url ''s-x'' r"
    by auto
  from r have "rest = [GetJson (JStr ''https://api-v2.soundcloud.com/tracks/7/download?client_id=stale&secret_token=s-x'')
          [(''client_id'', JStr ''stale'')],
        Head (JStr ''https://cf-media.sndcdn.com/orig.wav''),
        GetJson (JStr ''https://api-v2.soundcloud.com/media/7/a/stream/hls'')
          [(''client_id'', JStr ''stale''), (''secret_token'', JStr ''s-x'')]]"
    unfolding x by (simp add: stale_state_def)
  with p x show ?thesis by simp
qed

end
